theory Spec2Isabelle
  imports Main "HOL-Library.Char_ord" "HOL-Library.List_Lexorder" "HOL-Library.Multiset"
begin

section \<open>Errors\<close>

text \<open>
  Values that \<^verbatim>\<open>start-express-app.ts\<close> throws, rejects with or receives.
  \<open>Error message syscall code\<close> is a JavaScript \<^verbatim>\<open>Error\<close>, with the two optional
  fields of Node's \<^verbatim>\<open>ErrnoException\<close> (\<open>None\<close> is \<^verbatim>\<open>undefined\<close>).
  \<open>N9Error message status controllerDuplicatedNames\<close> is the
  \<^verbatim>\<open>N9Error\<close> of line 35 with its context object.
\<close>

datatype js_error =
    Error string "string option" "string option"
  | N9Error string nat "string list"

fun message_of :: "js_error \<Rightarrow> string" where
  "message_of (Error m s c) = m"
| "message_of (N9Error m st ctx) = m"

fun syscall :: "js_error \<Rightarrow> string option" where
  "syscall (Error m s c) = s"
| "syscall (N9Error m st ctx) = None"

fun code :: "js_error \<Rightarrow> string option" where
  "code (Error m s c) = c"
| "code (N9Error m st ctx) = None"

section \<open>Handler registry: \<^verbatim>\<open>createNestAppModule\<close> (lines 23-46)\<close>

text \<open>
  A controller is a class object loaded by \<^verbatim>\<open>importClassesFromDirectories\<close>; the code
  reads only its \<^verbatim>\<open>name\<close>. \<open>source\<close> stands for the rest of the class (the module it
  was loaded from), so that two different classes can carry the same name.
\<close>

datatype controller = Controller (name: string) (source: string)

datatype module_ref = RootModule

record nest_module =
  controllers :: "controller list"
  module_imports :: "module_ref list"

text \<open>
  \<^verbatim>\<open>_.uniqBy(controllers, 'name')\<close>: lodash walks the array once, keeps the keys it
  has seen and drops every element whose key was seen before.
\<close>

fun uniqBy_seen :: "('a \<Rightarrow> 'k) \<Rightarrow> 'k list \<Rightarrow> 'a list \<Rightarrow> 'a list" where
  "uniqBy_seen f seen [] = []"
| "uniqBy_seen f seen (x # xs) =
     (if f x \<in> set seen then uniqBy_seen f seen xs
      else x # uniqBy_seen f (f x # seen) xs)"

definition uniqBy :: "'a list \<Rightarrow> ('a \<Rightarrow> 'k) \<Rightarrow> 'a list" where
  "uniqBy xs f = uniqBy_seen f [] xs"

text \<open>
  \<^verbatim>\<open>Set.prototype.add\<close> followed by \<^verbatim>\<open>Array.from\<close>: a JavaScript \<^verbatim>\<open>Set\<close> keeps
  insertion order and ignores a value it already holds.
\<close>

definition set_add :: "'a \<Rightarrow> 'a list \<Rightarrow> 'a list" where
  "set_add x s = (if x \<in> set s then s else s @ [x])"

text \<open>
  The loop of lines 30-34, \<^verbatim>\<open>for (let i = 0; i < sorted.length - 1; i++)\<close>. The bound
  is written \<open>i + 1 < length sorted\<close>: in JavaScript \<^verbatim>\<open>sorted.length - 1\<close> is \<open>-1\<close> for
  the empty array and the loop body does not run.
\<close>

function duplicated_loop :: "string list \<Rightarrow> nat \<Rightarrow> string list \<Rightarrow> string list" where
  "duplicated_loop sorted_names i controllerDuplicatedNames =
     (if i + 1 < length sorted_names
      then duplicated_loop sorted_names (i + 1)
             (if sorted_names ! (i + 1) = sorted_names ! i
              then set_add (sorted_names ! i) controllerDuplicatedNames
              else controllerDuplicatedNames)
      else controllerDuplicatedNames)"
  by pat_completeness auto
termination
  by (relation "measure (\<lambda>(s, i, acc). length s - i)") auto

declare duplicated_loop.simps [simp del]

text \<open>
  \<^verbatim>\<open>createNestAppModule\<close>, given the classes that the directory scan returned.
  \<^verbatim>\<open>Array.prototype.sort\<close> without a comparator orders strings by their code units,
  which on \<open>string\<close> is the lexicographic order of \<open>List_Lexorder\<close> over \<open>Char_ord\<close>.
\<close>

definition createNestAppModule :: "controller list \<Rightarrow> js_error + nest_module" where
  "createNestAppModule cs =
     (let controllersUniq = uniqBy cs name in
      if length cs \<noteq> length controllersUniq
      then Inl (N9Error ''duplicated-controller'' 400
                  (duplicated_loop (sort (map name cs)) 0 []))
      else Inr \<lparr>controllers = cs, module_imports = [RootModule]\<rparr>)"

section \<open>Options and their defaults (lines 50-82)\<close>

text \<open>
  \<^verbatim>\<open>N9NodeRouting.Options\<close> is declared outside this file; the model keeps the fields
  that \<^verbatim>\<open>startExpressApp\<close> reads. An optional field that is \<^verbatim>\<open>undefined\<close> is \<open>None\<close>.
  A port is a number or a string (\<^verbatim>\<open>process.env.PORT\<close> is a string).
\<close>

datatype port_value = PortNumber int | PortString string

text \<open>
  The log-format option: absent, a boolean, the name of a morgan format, or a format
  function. \<open>DefaultFormat\<close> is the function written at lines 53-75, \<open>UserFormat n\<close> a
  function of the caller's (the number tells two of them apart).
\<close>

datatype format_fn = DefaultFormat | UserFormat nat

datatype log_level =
    LogLevelUndefined
  | LogLevelBoolean bool
  | LogLevelString string
  | LogLevelFunction format_fn

text \<open>An object of boolean flags, as an ordered list of its own properties.\<close>

type_synonym validator_options = "(string \<times> bool) list"

text \<open>
  A hook is caller code that is handed the live options object. A hook is given by what
  it does in the call: the assignments it makes to the fields of \<^verbatim>\<open>options.http\<close>, in
  order, and how the promise it returns settles (\<open>None\<close>: it resolves, \<open>Some err\<close>: it
  rejects with \<open>err\<close>). \<^verbatim>\<open>options.http\<close> itself stays an object; what a hook does to the
  application it is handed is not read again by \<^verbatim>\<open>startExpressApp\<close> and is left out.
\<close>

datatype hook = Hook (assignments: "assignment list") (settles: "js_error option")
and assignment =
    is_AssignPort: AssignPort "port_value option"
  | is_AssignLogLevel: AssignLogLevel log_level
  | is_AssignValidation: AssignValidation "validator_options option"
  | is_AssignBeforeHook: AssignBeforeHook "hook option"
  | is_AssignAfterHook: AssignAfterHook "hook option"
  | is_AssignPreventListen: AssignPreventListen bool

record http_options =
  port :: "port_value option"
  logLevel :: log_level
  validation :: "validator_options option"
  beforeRoutingControllerLaunchHook :: "hook option"
  afterRoutingControllerLaunchHook :: "hook option"
  preventListen :: bool

record options =
  path :: string
  http :: "http_options option"
  enableRequestId :: bool

text \<open>JavaScript truthiness of the values that \<open>||\<close> and \<open>if\<close> test.\<close>

fun port_truthy :: "port_value \<Rightarrow> bool" where
  "port_truthy (PortNumber n) = (n \<noteq> 0)"
| "port_truthy (PortString s) = (s \<noteq> [])"

fun log_level_truthy :: "log_level \<Rightarrow> bool" where
  "log_level_truthy LogLevelUndefined = False"
| "log_level_truthy (LogLevelBoolean b) = b"
| "log_level_truthy (LogLevelString s) = (s \<noteq> [])"
| "log_level_truthy (LogLevelFunction f) = True"

text \<open>The empty object of \<^verbatim>\<open>options.http || {}\<close> (line 51).\<close>

definition empty_http :: http_options where
  "empty_http =
     \<lparr>port = None, logLevel = LogLevelUndefined, validation = None,
      beforeRoutingControllerLaunchHook = None, afterRoutingControllerLaunchHook = None,
      preventListen = False\<rparr>"

text \<open>Line 52: \<^verbatim>\<open>options.http.port || process.env.PORT || 5000\<close>.\<close>

definition default_port :: "port_value option \<Rightarrow> string option \<Rightarrow> port_value" where
  "default_port configured env_PORT =
     (case configured of
        Some p \<Rightarrow>
          if port_truthy p then p
          else (case env_PORT of
                  Some s \<Rightarrow> if s \<noteq> [] then PortString s else PortNumber 5000
                | None \<Rightarrow> PortNumber 5000)
      | None \<Rightarrow>
          (case env_PORT of
             Some s \<Rightarrow> if s \<noteq> [] then PortString s else PortNumber 5000
           | None \<Rightarrow> PortNumber 5000))"

text \<open>Lines 53-75: the option is replaced only when it is \<^verbatim>\<open>undefined\<close>.\<close>

definition default_logLevel :: "log_level \<Rightarrow> log_level" where
  "default_logLevel l =
     (if l \<noteq> LogLevelUndefined then l else LogLevelFunction DefaultFormat)"

text \<open>
  Lines 51-82 as one update of \<^verbatim>\<open>options.http\<close>; \<open>env_PORT\<close> is
  \<^verbatim>\<open>process.env.PORT\<close>.
\<close>

definition default_http :: "string option \<Rightarrow> http_options option \<Rightarrow> http_options" where
  "default_http env_PORT supplied =
     (let h0 = (case supplied of Some h \<Rightarrow> h | None \<Rightarrow> empty_http);
          h1 = h0\<lparr>port := Some (default_port (port h0) env_PORT)\<rparr>;
          h2 = h1\<lparr>logLevel := default_logLevel (logLevel h1)\<rparr>
      in h2\<lparr>validation := Some [(''whitelist'', True), (''forbidNonWhitelisted'', True)]\<rparr>)"

text \<open>A call of a hook on \<^verbatim>\<open>options.http\<close>: its assignments, one after the other.\<close>

fun assign :: "assignment \<Rightarrow> http_options \<Rightarrow> http_options" where
  "assign (AssignPort v) h = h\<lparr>port := v\<rparr>"
| "assign (AssignLogLevel v) h = h\<lparr>logLevel := v\<rparr>"
| "assign (AssignValidation v) h = h\<lparr>validation := v\<rparr>"
| "assign (AssignBeforeHook v) h = h\<lparr>beforeRoutingControllerLaunchHook := v\<rparr>"
| "assign (AssignAfterHook v) h = h\<lparr>afterRoutingControllerLaunchHook := v\<rparr>"
| "assign (AssignPreventListen v) h = h\<lparr>preventListen := v\<rparr>"

definition call_hook :: "hook \<Rightarrow> http_options \<Rightarrow> http_options" where
  "call_hook hk h = fold assign (assignments hk) h"

text \<open>
  \<^verbatim>\<open>options.http\<close> as the pre-init hook leaves it (lines 144-146), which is what lines
  149-162 read, and as the post-init hook then leaves it (lines 160-162), which is what
  the listen reads. A hook that is not there changes nothing.
\<close>

definition after_before_hook :: "http_options \<Rightarrow> http_options" where
  "after_before_hook h =
     (case beforeRoutingControllerLaunchHook h of Some hk \<Rightarrow> call_hook hk h | None \<Rightarrow> h)"

definition after_after_hook :: "http_options \<Rightarrow> http_options" where
  "after_after_hook h =
     (case afterRoutingControllerLaunchHook h of Some hk \<Rightarrow> call_hook hk h | None \<Rightarrow> h)"

section \<open>Listen errors: \<^verbatim>\<open>analyzeError\<close> (lines 87-102)\<close>

text \<open>Decimal text of a number, as string concatenation and template literals produce.\<close>

definition digit_char :: "nat \<Rightarrow> char" where
  "digit_char d = ''0123456789'' ! d"

fun string_of_nat :: "nat \<Rightarrow> string" where
  "string_of_nat n =
     (if n < 10 then [digit_char n]
      else string_of_nat (n div 10) @ [digit_char (n mod 10)])"

declare string_of_nat.simps [simp del]

definition string_of_int :: "int \<Rightarrow> string" where
  "string_of_int i = (if i < 0 then CHR ''-'' # string_of_nat (nat (- i)) else string_of_nat (nat i))"

fun port_to_string :: "port_value \<Rightarrow> string" where
  "port_to_string (PortNumber n) = string_of_int n"
| "port_to_string (PortString s) = s"

text \<open>
  The text of \<^verbatim>\<open>options.http.port\<close> as it is when it is read: a hook can have left the
  field \<^verbatim>\<open>undefined\<close>.
\<close>

fun port_text :: "port_value option \<Rightarrow> string" where
  "port_text None = ''undefined''"
| "port_text (Some p) = port_to_string p"

definition analyzeError :: "port_value option \<Rightarrow> js_error \<Rightarrow> js_error" where
  "analyzeError configured_port error =
     (if syscall error \<noteq> Some ''listen'' then error
      else if code error = Some ''EACCES''
      then Error (''Port '' @ port_text configured_port @ '' requires elevated privileges'')
             None None
      else if code error = Some ''EADDRINUSE''
      then Error (''Port '' @ port_text configured_port @ '' is already in use'') None None
      else error)"

text \<open>\<open>contains s sub\<close>: \<open>sub\<close> occurs in \<open>s\<close> as a contiguous substring.\<close>

definition contains :: "string \<Rightarrow> string \<Rightarrow> bool" where
  "contains s sub =
     list_ex (\<lambda>i. take (length sub) (drop i s) = sub) [0 ..< Suc (length s)]"

section \<open>The bootstrap sequence: \<^verbatim>\<open>startExpressApp\<close> (lines 48-189)\<close>

text \<open>
  What lies outside the function and decides its run: the environment variable, the
  directory scan (\<^verbatim>\<open>importClassesFromDirectories\<close>, given the glob patterns), whether
  morgan accepts a string as a format (\<open>None\<close>: it does, \<open>Some err\<close>: it throws \<open>err\<close>),
  whether the awaited collaborators reject (\<open>None\<close>: the promise resolves), and which of
  the two events the server emits after \<^verbatim>\<open>server.listen\<close>. \<^verbatim>\<open>bindSpecificRoutes\<close> is the
  routes module of this repository; like the other collaborators it is taken to leave the
  options as they are.
\<close>

datatype listen_event = Listening | ListenError js_error

record env =
  env_PORT :: "string option"
  importClassesFromDirectories :: "string list \<Rightarrow> controller list"
  morgan_format :: "string \<Rightarrow> js_error option"
  bindSpecificRoutes :: "js_error option"
  NestFactory_create :: "js_error option"
  nestApp_init :: "js_error option"
  server_event :: listen_event

text \<open>
  The arguments of \<^verbatim>\<open>expressApp.use\<close>. \<open>Morgan l\<close> is \<^verbatim>\<open>morgan(l, {stream: {write}})\<close>,
  with the \<open>stream_write\<close> of the logging adapter below.
\<close>

datatype middleware = SetRequestContext | Helmet | SessionLoaderInterceptor | Morgan log_level

fun is_Morgan :: "middleware \<Rightarrow> bool" where
  "is_Morgan (Morgan l) = True"
| "is_Morgan m = False"

text \<open>
  The call \<^verbatim>\<open>morgan(options.http.logLevel, {stream})\<close> of line 116, which is evaluated
  before \<^verbatim>\<open>expressApp.use\<close> is called with its result. The morgan library takes a
  function as the format function as it is. Any other value it looks up in its table of
  named formats and compiles, and its \<^verbatim>\<open>compile\<close> throws a \<^verbatim>\<open>TypeError\<close> for a value that
  is not a string, which is what \<^verbatim>\<open>true\<close> comes to; \<^verbatim>\<open>false\<close> and \<^verbatim>\<open>undefined\<close> come to
  the library's default format. What the table and \<^verbatim>\<open>compile\<close> make of a string is the
  environment's \<open>morgan_format\<close>.
\<close>

definition TypeError :: "string \<Rightarrow> js_error" where
  "TypeError m = Error m None None"

fun morgan_construct :: "env \<Rightarrow> log_level \<Rightarrow> js_error option" where
  "morgan_construct e (LogLevelFunction f) = None"
| "morgan_construct e (LogLevelString s) = morgan_format e s"
| "morgan_construct e (LogLevelBoolean b) =
     (if b then Some (TypeError ''argument format must be a string'') else None)"
| "morgan_construct e LogLevelUndefined = None"

text \<open>
  Lines 108-137: the middleware of the express application after the calls of \<^verbatim>\<open>use\<close>
  that return, in call order.
\<close>

definition assemble_middleware :: "env \<Rightarrow> http_options \<Rightarrow> middleware list" where
  "assemble_middleware e h =
     [SetRequestContext, Helmet, SessionLoaderInterceptor]
     @ (if log_level_truthy (logLevel h) \<and> morgan_construct e (logLevel h) = None
        then [Morgan (logLevel h)] else [])"

text \<open>
  \<^verbatim>\<open>{ transform: true, ...options.http.validation }\<close>: a property that exists keeps its
  place and takes the new value, a new one is appended; spreading \<^verbatim>\<open>undefined\<close> adds
  nothing.
\<close>

fun object_set :: "(string \<times> 'v) list \<Rightarrow> string \<Rightarrow> 'v \<Rightarrow> (string \<times> 'v) list" where
  "object_set [] k v = [(k, v)]"
| "object_set ((k', v') # kvs) k v =
     (if k' = k then (k, v) # kvs else (k', v') # object_set kvs k v)"

fun object_spread :: "(string \<times> 'v) list \<Rightarrow> (string \<times> 'v) list \<Rightarrow> (string \<times> 'v) list" where
  "object_spread obj [] = obj"
| "object_spread obj ((k, v) # kvs) = object_spread (object_set obj k v) kvs"

definition validation_pipe_options :: "http_options \<Rightarrow> validator_options" where
  "validation_pipe_options h =
     object_spread [(''transform'', True)]
       (case validation h of Some v \<Rightarrow> v | None \<Rightarrow> [])"

text \<open>
  The calls the bootstrap makes, in the order of the source. A run is the list of the
  calls made up to and including the first one that throws or rejects.
\<close>

datatype event =
    Use middleware
  | CallMorgan log_level
  | CreateNestAppModule
  | BindSpecificRoutes
  | CreateServer
  | BeforeRoutingControllerLaunchHook
  | NestFactoryCreate
  | UseGlobalFilters
  | UseGlobalPipes validator_options
  | NestInit
  | AfterRoutingControllerLaunchHook
  | ServerListen "port_value option"
  | LogInfo string

fun is_Use :: "event \<Rightarrow> bool" where
  "is_Use (Use m) = True"
| "is_Use ev = False"

type_synonym step = "event \<times> js_error option"

fun run :: "step list \<Rightarrow> event list \<times> js_error option" where
  "run [] = ([], None)"
| "run ((ev, None) # steps) = (case run steps of (evs, r) \<Rightarrow> (ev # evs, r))"
| "run ((ev, Some e) # steps) = ([ev], Some e)"

text \<open>
  Lines 165-183: \<^verbatim>\<open>listen\<close> rejects with \<^verbatim>\<open>analyzeError(error)\<close> on the server's
  \<^verbatim>\<open>error\<close> event; on \<^verbatim>\<open>listening\<close> it logs (\<^verbatim>\<open>onListening\<close>) and resolves.
\<close>

definition listen_steps :: "env \<Rightarrow> http_options \<Rightarrow> step list" where
  "listen_steps e h =
     [(ServerListen (port h),
       (case server_event e of
          ListenError err \<Rightarrow> Some (analyzeError (port h) err)
        | Listening \<Rightarrow> None)),
      (LogInfo (''Listening on port '' @ port_text (port h)), None)]"

text \<open>
  Lines 110-137, for the options \<open>h\<close> that lines 51-82 have filled in. When the log-format
  option is truthy, \<^verbatim>\<open>morgan(...)\<close> is called first and \<^verbatim>\<open>use\<close> only if that returns.
\<close>

definition middleware_steps :: "env \<Rightarrow> http_options \<Rightarrow> step list" where
  "middleware_steps e h =
     [(Use SetRequestContext, None),
      (Use Helmet, None),
      (Use SessionLoaderInterceptor, None)]
     @ (if log_level_truthy (logLevel h)
        then [(CallMorgan (logLevel h), morgan_construct e (logLevel h)),
              (Use (Morgan (logLevel h)), None)]
        else [])"

text \<open>
  Lines 138-183, for the options \<open>h\<close> that lines 51-82 have filled in.
  \<^verbatim>\<open>createNestAppModule\<close> throws or returns; the awaited calls reject or resolve; a hook
  that is not in the options when its field is read is not called; \<^verbatim>\<open>preventListen\<close>
  skips the listen. The pre-init hook is read from \<open>h\<close>; the validation options of the
  pipe and the post-init hook are read after the pre-init hook has run, the port and
  \<^verbatim>\<open>preventListen\<close> after the post-init hook has run.
\<close>

definition launch_steps :: "env \<Rightarrow> string \<Rightarrow> http_options \<Rightarrow> step list" where
  "launch_steps e options_path h =
     [(CreateNestAppModule,
       (case createNestAppModule
               (importClassesFromDirectories e [options_path @ ''/**/*.controller.*s''])
        of Inl err \<Rightarrow> Some err | Inr nestAppModule \<Rightarrow> None)),
      (BindSpecificRoutes, bindSpecificRoutes e),
      (CreateServer, None)]
     @ (case beforeRoutingControllerLaunchHook h of
          Some hk \<Rightarrow> [(BeforeRoutingControllerLaunchHook, settles hk)]
        | None \<Rightarrow> [])
     @ [(NestFactoryCreate, NestFactory_create e),
        (UseGlobalFilters, None),
        (UseGlobalPipes (validation_pipe_options (after_before_hook h)), None),
        (NestInit, nestApp_init e)]
     @ (case afterRoutingControllerLaunchHook (after_before_hook h) of
          Some hk \<Rightarrow> [(AfterRoutingControllerLaunchHook, settles hk)]
        | None \<Rightarrow> [])
     @ (if \<not> preventListen (after_after_hook (after_before_hook h))
        then listen_steps e (after_after_hook (after_before_hook h)) else [])"

definition bootstrap_steps :: "env \<Rightarrow> string \<Rightarrow> http_options \<Rightarrow> step list" where
  "bootstrap_steps e options_path h = middleware_steps e h @ launch_steps e options_path h"

text \<open>
  The value returned at lines 185-188. Of the application it records the middleware that
  \<^verbatim>\<open>startExpressApp\<close> installed; of the server, whether it listens and on which value of
  \<^verbatim>\<open>options.http.port\<close>.
\<close>

datatype server_handle = NotListening | ListeningOn "port_value option"

record return_object =
  app :: "middleware list"
  server :: server_handle

text \<open>
  A call of \<^verbatim>\<open>startExpressApp\<close>: the options object as the call leaves it (it is
  mutated in place, by lines 51-82 and by every hook that was called), the calls made, and
  the promise's result.
\<close>

record bootstrap =
  options_after :: options
  trace :: "event list"
  outcome :: "js_error + return_object"

definition startExpressApp :: "env \<Rightarrow> options \<Rightarrow> bootstrap" where
  "startExpressApp e opts =
     (let h = default_http (env_PORT e) (http opts);
          h1 = after_before_hook h;
          h2 = after_after_hook h1;
          (evs, r) = run (bootstrap_steps e (path opts) h)
      in \<lparr>options_after =
            opts\<lparr>http :=
              Some (if AfterRoutingControllerLaunchHook \<in> set evs then h2
                    else if BeforeRoutingControllerLaunchHook \<in> set evs then h1
                    else h)\<rparr>,
          trace = evs,
          outcome =
            (case r of
               Some err \<Rightarrow> Inl err
             | None \<Rightarrow>
                 Inr \<lparr>app = assemble_middleware e h,
                      server = (if \<not> preventListen h2 then ListeningOn (port h2)
                                else NotListening)\<rparr>)\<rparr>)"

section \<open>The logging adapter: \<^verbatim>\<open>write\<close> (lines 118-134)\<close>

text \<open>
  A value that \<^verbatim>\<open>JSON.parse\<close> returns; \<open>'n\<close> is the type of JavaScript numbers. An
  object lists its own properties in the order in which they are enumerated.
\<close>

datatype 'n json =
    JNull
  | JBool bool
  | JNumber 'n
  | JString string
  | JArray "'n json list"
  | JObject "(string \<times> 'n json) list"

text \<open>
  What the adapter takes from the language and its engine, not from this repository:
  \<^verbatim>\<open>JSON.parse\<close>, \<^verbatim>\<open>Number.parseFloat\<close> on a string, the text of a number, and the two
  \<^verbatim>\<open>TypeError\<close> objects the engine throws (for reading the property \<open>k\<close> of \<^verbatim>\<open>null\<close>, and
  for an object that cannot be converted to a primitive value). The adapter is modelled
  for any behaviour of them.
\<close>

record 'n js_builtins =
  JSON_parse :: "string \<Rightarrow> js_error + 'n json"
  parseFloat :: "string \<Rightarrow> 'n"
  number_to_string :: "'n \<Rightarrow> string"
  null_property_error :: "string \<Rightarrow> js_error"
  to_primitive_error :: js_error

text \<open>What the logger receives as metadata values.\<close>

datatype 'n js_value = Json "'n json" | Number 'n | ErrorObject js_error

datatype 'n log_call = Info string "(string \<times> 'n js_value) list option"

text \<open>
  String conversion of a parsed value. An array is joined with commas, \<^verbatim>\<open>null\<close> elements
  giving the empty string. An object is converted by the \<^verbatim>\<open>toString\<close> it finds: the
  inherited one gives \<open>[object Object]\<close>; an own property \<^verbatim>\<open>toString\<close>, which in a parsed
  value is never a function, hides it, and the conversion throws a \<^verbatim>\<open>TypeError\<close>.
\<close>

fun intercalate :: "string \<Rightarrow> string list \<Rightarrow> string" where
  "intercalate sep [] = []"
| "intercalate sep [x] = x"
| "intercalate sep (x # y # ys) = x @ sep @ intercalate sep (y # ys)"

fun json_to_string :: "'n js_builtins \<Rightarrow> 'n json \<Rightarrow> js_error + string"
  and join_elements :: "'n js_builtins \<Rightarrow> 'n json list \<Rightarrow> js_error + string list" where
  "json_to_string js JNull = Inr ''null''"
| "json_to_string js (JBool b) = Inr (if b then ''true'' else ''false'')"
| "json_to_string js (JNumber n) = Inr (number_to_string js n)"
| "json_to_string js (JString s) = Inr s"
| "json_to_string js (JArray xs) =
     (case join_elements js xs of
        Inl err \<Rightarrow> Inl err
      | Inr texts \<Rightarrow> Inr (intercalate '','' texts))"
| "json_to_string js (JObject kvs) =
     (if map_of kvs ''toString'' \<noteq> None then Inl (to_primitive_error js)
      else Inr ''[object Object]'')"
| "join_elements js [] = Inr []"
| "join_elements js (x # xs) =
     (case (case x of JNull \<Rightarrow> Inr [] | _ \<Rightarrow> json_to_string js x) of
        Inl err \<Rightarrow> Inl err
      | Inr t \<Rightarrow>
          (case join_elements js xs of
             Inl err \<Rightarrow> Inl err
           | Inr texts \<Rightarrow> Inr (t # texts)))"

text \<open>String conversion of what a property read gives (\<open>None\<close> is \<^verbatim>\<open>undefined\<close>).\<close>

definition ToString :: "'n js_builtins \<Rightarrow> 'n json option \<Rightarrow> js_error + string" where
  "ToString js v = (case v of None \<Rightarrow> Inr ''undefined'' | Some j \<Rightarrow> json_to_string js j)"

text \<open>
  \<^verbatim>\<open>morganDetails.path\<close> and \<^verbatim>\<open>morganDetails['response-time']\<close>: reading a property
  of \<^verbatim>\<open>null\<close> throws a \<^verbatim>\<open>TypeError\<close>; an object gives its own property or
  \<^verbatim>\<open>undefined\<close>; the other values have no property of these two names.
\<close>

fun get_property :: "'n js_builtins \<Rightarrow> 'n json \<Rightarrow> string \<Rightarrow> js_error + 'n json option" where
  "get_property js JNull k = Inl (null_property_error js k)"
| "get_property js (JObject kvs) k = Inr (map_of kvs k)"
| "get_property js j k = Inr None"

text \<open>\<^verbatim>\<open>{...morganDetails}\<close>: the own enumerable properties of the value.\<close>

fun own_properties :: "'n json \<Rightarrow> (string \<times> 'n json) list" where
  "own_properties (JObject kvs) = kvs"
| "own_properties (JArray xs) = zip (map string_of_nat [0 ..< length xs]) xs"
| "own_properties (JString s) =
     zip (map string_of_nat [0 ..< length s]) (map (\<lambda>c. JString [c]) s)"
| "own_properties j = []"

text \<open>
  \<^verbatim>\<open>message.replace('\n', '')\<close>: with a string pattern, \<^verbatim>\<open>replace\<close> removes the first
  occurrence only. \<^verbatim>\<open>message && ...\<close> leaves the empty string as it is, which is also
  what \<^verbatim>\<open>replace\<close> returns for it.
\<close>

definition newline :: char where
  "newline = CHR 0x0A"

fun replace_first :: "char \<Rightarrow> string \<Rightarrow> string" where
  "replace_first c [] = []"
| "replace_first c (x # xs) = (if x = c then xs else x # replace_first c xs)"

definition strip_newline :: "string \<Rightarrow> string" where
  "strip_newline message = (if message = [] then message else replace_first newline message)"

text \<open>
  The \<^verbatim>\<open>try\<close> block of lines 120-125; \<open>Inl\<close> is what it throws. The first argument of
  \<^verbatim>\<open>info\<close> is evaluated before the second: the read of \<^verbatim>\<open>path\<close> and its conversion for
  the concatenation, then the spread, the read of \<^verbatim>\<open>response-time\<close> and its conversion
  for \<^verbatim>\<open>parseFloat\<close>.
\<close>

definition write_try :: "'n js_builtins \<Rightarrow> string \<Rightarrow> js_error + 'n log_call" where
  "write_try js message =
     (case JSON_parse js message of
        Inl e \<Rightarrow> Inl e
      | Inr morganDetails \<Rightarrow>
          (case get_property js morganDetails ''path'' of
             Inl e \<Rightarrow> Inl e
           | Inr path_value \<Rightarrow>
               (case ToString js path_value of
                  Inl e \<Rightarrow> Inl e
                | Inr path_text \<Rightarrow>
                    (case get_property js morganDetails ''response-time'' of
                       Inl e \<Rightarrow> Inl e
                     | Inr response_time \<Rightarrow>
                         (case ToString js response_time of
                            Inl e \<Rightarrow> Inl e
                          | Inr response_text \<Rightarrow>
                              Inr (Info (''api call '' @ path_text)
                                     (Some (object_set
                                              (map (\<lambda>(k, v). (k, Json v))
                                                 (own_properties morganDetails))
                                              ''durationMs''
                                              (Number (parseFloat js response_text))))))))))"

text \<open>
  The \<^verbatim>\<open>write\<close> of morgan's stream (\<open>write\<close> alone is a keyword of Isabelle), with
  the process-wide flag \<^verbatim>\<open>global.n9NodeRoutingData.formatLogInJSON\<close> as an argument: the
  object that holds the flag is set up before the bootstrap. The result is the call of
  \<^verbatim>\<open>options.log.info\<close> that \<^verbatim>\<open>write\<close> makes, or what it throws; the logger itself is
  taken not to throw.
\<close>

definition stream_write :: "'n js_builtins \<Rightarrow> bool \<Rightarrow> string \<Rightarrow> js_error + 'n log_call" where
  "stream_write js formatLogInJSON message =
     (if formatLogInJSON
      then (case write_try js message of
              Inr call \<Rightarrow> Inr call
            | Inl e \<Rightarrow> Inr (Info (strip_newline message) (Some [(''error'', ErrorObject e)])))
      else Inr (Info (strip_newline message) None))"

section \<open>Observations on a call\<close>

text \<open>
  What the caller passed, read as line 51 reads it: without \<^verbatim>\<open>options.http\<close> every
  field of it is \<^verbatim>\<open>undefined\<close>.
\<close>

definition supplied_http :: "options \<Rightarrow> http_options" where
  "supplied_http opts = (case http opts of Some h \<Rightarrow> h | None \<Rightarrow> empty_http)"

text \<open>
  \<^verbatim>\<open>options.http\<close> in a call, at three points: after the defaulting of lines 51-82, when
  the dispatch engine is constructed and initialised (lines 149-162, after the pre-init
  hook), and when the listen is reached (line 183, after the post-init hook).
\<close>

definition defaulted_http :: "env \<Rightarrow> options \<Rightarrow> http_options" where
  "defaulted_http e opts = default_http (env_PORT e) (http opts)"

definition http_at_init :: "env \<Rightarrow> options \<Rightarrow> http_options" where
  "http_at_init e opts = after_before_hook (defaulted_http e opts)"

definition http_at_listen :: "env \<Rightarrow> options \<Rightarrow> http_options" where
  "http_at_listen e opts = after_after_hook (http_at_init e opts)"


definition assigns_validation :: "hook \<Rightarrow> bool" where
  "assigns_validation hk = list_ex is_AssignValidation (assignments hk)"


text \<open>The access-log middleware has been passed to \<^verbatim>\<open>expressApp.use\<close>.\<close>

fun is_Use_Morgan :: "event \<Rightarrow> bool" where
  "is_Use_Morgan (Use m) = is_Morgan m"
| "is_Use_Morgan ev = False"

definition logging_installed :: "event list \<Rightarrow> bool" where
  "logging_installed evs = list_ex is_Use_Morgan evs"


text \<open>
  An environment for the examples: no \<^verbatim>\<open>PORT\<close> variable, a directory scan that finds
  two controllers, a morgan that accepts every string, collaborators that resolve, a
  server that starts listening.
\<close>

definition example_env :: env where
  "example_env =
     \<lparr>env_PORT = None,
      importClassesFromDirectories =
        (\<lambda>patterns. [Controller ''UsersController'' ''users.controller.ts'',
                      Controller ''ValidateController'' ''json2.controller.ts'']),
      morgan_format = (\<lambda>format. None),
      bindSpecificRoutes = None,
      NestFactory_create = None,
      nestApp_init = None,
      server_event = Listening\<rparr>"

text \<open>
  Built-ins for the examples, with numbers as integers: a \<^verbatim>\<open>JSON.parse\<close> that rejects
  every line with a \<^verbatim>\<open>SyntaxError\<close>.
\<close>

definition rejecting_js :: "int js_builtins" where
  "rejecting_js =
     \<lparr>JSON_parse = (\<lambda>line. Inl (Error ''Unexpected token in JSON at position 0'' None None)),
      parseFloat = (\<lambda>text. 0),
      number_to_string = (\<lambda>n. string_of_int n),
      null_property_error = (\<lambda>k. Error ''Cannot read properties of null'' None None),
      to_primitive_error = Error ''Cannot convert object to primitive value'' None None\<rparr>"

section \<open>Properties of the handler registry\<close>

lemma length_uniqBy_seen_le: "length (uniqBy_seen f seen xs) \<le> length xs"
  by (induction xs arbitrary: seen) (auto intro: le_SucI)

lemma length_uniqBy_seen_eq:
  "length (uniqBy_seen f seen xs) = length xs \<longleftrightarrow>
     distinct (map f xs) \<and> set (map f xs) \<inter> set seen = {}"
proof (induction xs arbitrary: seen)
  case Nil show ?case by simp
next
  case (Cons x xs)
  show ?case
  proof (cases "f x \<in> set seen")
    case True
    have "length (uniqBy_seen f seen xs) \<le> length xs" by (rule length_uniqBy_seen_le)
    with True show ?thesis by auto
  next
    case False
    with Cons.IH[of "f x # seen"] show ?thesis by auto
  qed
qed

lemma length_uniqBy_eq: "length xs = length (uniqBy xs f) \<longleftrightarrow> distinct (map f xs)"
  using length_uniqBy_seen_eq[of f "[]" xs] by (auto simp: uniqBy_def)

lemma set_set_add: "set (set_add x s) = insert x (set s)"
  by (auto simp: set_add_def)

lemma distinct_set_add: "distinct s \<Longrightarrow> distinct (set_add x s)"
  by (auto simp: set_add_def)

lemma set_duplicated_loop:
  "set (duplicated_loop s i acc) =
     set acc \<union> {x. \<exists>j. i \<le> j \<and> j + 1 < length s \<and> s ! (j + 1) = s ! j \<and> x = s ! j}"
proof (induction s i acc rule: duplicated_loop.induct)
  case (1 s i acc)
  show ?case
  proof (cases "i + 1 < length s")
    case False
    then show ?thesis by (subst duplicated_loop.simps) auto
  next
    case True
    let ?P = "\<lambda>j x. j + 1 < length s \<and> s ! (j + 1) = s ! j \<and> x = s ! j"
    have split: "{x. \<exists>j. i \<le> j \<and> ?P j x} = {x. ?P i x} \<union> {x. \<exists>j. i + 1 \<le> j \<and> ?P j x}"
      (is "?L = ?R")
    proof
      show "?L \<subseteq> ?R"
      proof
        fix x assume "x \<in> ?L"
        then obtain j where j: "i \<le> j" "?P j x" by blast
        then have "j = i \<or> i + 1 \<le> j" by arith
        with j show "x \<in> ?R" by blast
      qed
      show "?R \<subseteq> ?L"
      proof
        fix x assume "x \<in> ?R"
        then consider "?P i x" | j where "i + 1 \<le> j" "?P j x" by blast
        then show "x \<in> ?L"
        proof cases
          case 1 then show ?thesis by blast
        next
          case 2
          then have "i \<le> j" by arith
          with 2 show ?thesis by blast
        qed
      qed
    qed
    have now: "set (if s ! (i + 1) = s ! i then set_add (s ! i) acc else acc) = set acc \<union> {x. ?P i x}"
      using True by (auto simp: set_set_add)
    have "duplicated_loop s i acc =
            duplicated_loop s (i + 1) (if s ! (i + 1) = s ! i then set_add (s ! i) acc else acc)"
      using True by (subst duplicated_loop.simps) simp
    then have "set (duplicated_loop s i acc) =
        set (if s ! (i + 1) = s ! i then set_add (s ! i) acc else acc)
          \<union> {x. \<exists>j. i + 1 \<le> j \<and> ?P j x}"
      using "1.IH"[OF True] by simp
    also have "\<dots> = set acc \<union> ({x. ?P i x} \<union> {x. \<exists>j. i + 1 \<le> j \<and> ?P j x})"
      unfolding now by (simp only: Un_assoc)
    finally show ?thesis unfolding split .
  qed
qed

lemma distinct_duplicated_loop: "distinct acc \<Longrightarrow> distinct (duplicated_loop s i acc)"
proof (induction s i acc rule: duplicated_loop.induct)
  case (1 s i acc)
  show ?case
  proof (cases "i + 1 < length s")
    case False
    then show ?thesis using "1.prems" by (subst duplicated_loop.simps) simp
  next
    case True
    have "distinct (if s ! (i + 1) = s ! i then set_add (s ! i) acc else acc)"
      using "1.prems" by (simp add: distinct_set_add)
    from "1.IH"[OF True this] True show ?thesis
      by (subst duplicated_loop.simps) simp
  qed
qed

lemma count_list_gt1_iff:
  "1 < count_list xs x \<longleftrightarrow> (\<exists>i j. i < j \<and> j < length xs \<and> xs ! i = x \<and> xs ! j = x)"
proof (induction xs)
  case Nil show ?case by simp
next
  case (Cons a xs)
  show ?case
  proof (cases "a = x")
    case False
    have "(\<exists>i j. i < j \<and> j < length (a # xs) \<and> (a # xs) ! i = x \<and> (a # xs) ! j = x)
       \<longleftrightarrow> (\<exists>i j. i < j \<and> j < length xs \<and> xs ! i = x \<and> xs ! j = x)" (is "?A \<longleftrightarrow> ?B")
    proof
      assume ?A
      then obtain i j where ij: "i < j" "j < length (a # xs)" "(a # xs) ! i = x" "(a # xs) ! j = x"
        by blast
      with False obtain i' where i': "i = Suc i'" by (cases i) auto
      from ij obtain j' where j': "j = Suc j'" by (cases j) auto
      from ij i' j' show ?B by auto
    next
      assume ?B
      then obtain i j where "i < j" "j < length xs" "xs ! i = x" "xs ! j = x" by blast
      then have "Suc i < Suc j \<and> Suc j < length (a # xs) \<and> (a # xs) ! Suc i = x \<and> (a # xs) ! Suc j = x"
        by simp
      then show ?A by blast
    qed
    with False Cons.IH show ?thesis by simp
  next
    case True
    have "(\<exists>i j. i < j \<and> j < length (a # xs) \<and> (a # xs) ! i = x \<and> (a # xs) ! j = x)
       \<longleftrightarrow> x \<in> set xs" (is "?A \<longleftrightarrow> ?B")
    proof
      assume ?A
      then obtain i j where ij: "i < j" "j < length (a # xs)" "(a # xs) ! j = x" by blast
      then obtain j' where j': "j = Suc j'" by (cases j) auto
      with ij have "j' < length xs" "xs ! j' = x" by auto
      then show ?B by auto
    next
      assume ?B
      then obtain k where "k < length xs" "xs ! k = x" by (auto simp: in_set_conv_nth)
      with True have "0 < Suc k \<and> Suc k < length (a # xs) \<and> (a # xs) ! 0 = x \<and> (a # xs) ! Suc k = x"
        by simp
      then show ?A by blast
    qed
    moreover have "1 < count_list (a # xs) x \<longleftrightarrow> x \<in> set xs"
      using True count_list_0_iff[of xs x] by auto
    ultimately show ?thesis by simp
  qed
qed

lemma sorted_adjacent_dups:
  fixes s :: "'a::linorder list"
  assumes "sorted s"
  shows "{x. \<exists>j. j + 1 < length s \<and> s ! (j + 1) = s ! j \<and> x = s ! j} = {x. 1 < count_list s x}"
proof (intro set_eqI iffI; clarify)
  fix j assume j: "j + 1 < length s" "s ! (j + 1) = s ! j"
  then have "j < j + 1 \<and> j + 1 < length s \<and> s ! j = s ! j \<and> s ! (j + 1) = s ! j" by simp
  then show "1 < count_list s (s ! j)" unfolding count_list_gt1_iff by blast
next
  fix x assume "1 < count_list s x"
  then obtain i j where ij: "i < j" "j < length s" "s ! i = x" "s ! j = x"
    unfolding count_list_gt1_iff by blast
  have "s ! i \<le> s ! (i + 1)" using assms ij by (intro sorted_nth_mono) auto
  moreover have "s ! (i + 1) \<le> s ! j" using assms ij by (intro sorted_nth_mono) auto
  ultimately have "s ! (i + 1) = x" using ij by auto
  with ij have "i + 1 < length s \<and> s ! (i + 1) = s ! i \<and> x = s ! i" by auto
  then show "\<exists>j. j + 1 < length s \<and> s ! (j + 1) = s ! j \<and> x = s ! j" by blast
qed

lemma count_list_sort: "count_list (sort xs) x = count_list xs x"
  by (metis count_mset mset_sort)

lemma distinct_count_list: "distinct xs \<longleftrightarrow> (\<forall>x. count_list xs x \<le> 1)"
  by (induction xs) (auto simp: count_list_0_iff  le_Suc_eq dest: spec)

lemma set_duplicated_names:
  "set (duplicated_loop (sort names) 0 []) = {n. 1 < count_list names n}"
proof -
  have "set (duplicated_loop (sort names) 0 []) = {n. 1 < count_list (sort names) n}"
    using sorted_adjacent_dups[of "sort names"] by (simp add: set_duplicated_loop)
  then show ?thesis by (simp add: count_list_sort)
qed

text \<open>
  C1. \<^verbatim>\<open>createNestAppModule\<close> throws exactly when some controller name is repeated. The
  error it throws is the \<^verbatim>\<open>N9Error\<close> \<open>duplicated-controller\<close> with status 400, and its
  list of duplicated names holds, without repetition, exactly the names that occur more
  than once. When the names are pairwise different the module is returned and registers
  every discovered controller: the list it holds is the input list.
\<close>

theorem createNestAppModule_duplicates:
  "((\<exists>err. createNestAppModule cs = Inl err) \<longleftrightarrow> (\<exists>n. 1 < count_list (map name cs) n))
   \<and> ((\<exists>n. 1 < count_list (map name cs) n) \<longrightarrow>
        (\<exists>dups. createNestAppModule cs = Inl (N9Error ''duplicated-controller'' 400 dups)
           \<and> distinct dups \<and> set dups = {n. 1 < count_list (map name cs) n}))
   \<and> (\<not> (\<exists>n. 1 < count_list (map name cs) n) \<longrightarrow>
        (\<exists>m. createNestAppModule cs = Inr m \<and> controllers m = cs
           \<and> length (controllers m) = length cs))"
proof -
  have rep: "(\<exists>n. 1 < count_list (map name cs) n) \<longleftrightarrow> \<not> distinct (map name cs)"
    by (auto simp: distinct_count_list not_le)
  show ?thesis
  proof (cases "distinct (map name cs)")
    case True
    then have "createNestAppModule cs = Inr \<lparr>controllers = cs, module_imports = [RootModule]\<rparr>"
      by (simp add: createNestAppModule_def length_uniqBy_eq)
    with True rep show ?thesis by simp
  next
    case False
    then have "createNestAppModule cs =
        Inl (N9Error ''duplicated-controller'' 400 (duplicated_loop (sort (map name cs)) 0 []))"
      by (simp add: createNestAppModule_def length_uniqBy_eq)
    moreover have "distinct (duplicated_loop (sort (map name cs)) 0 [])"
      by (rule distinct_duplicated_loop) simp
    moreover note set_duplicated_names[of "map name cs"]
    ultimately show ?thesis using False rep by simp
  qed
qed

theorem createNestAppModule_duplicates_witness:
  "(\<exists>n. 1 < count_list (map name [Controller ''B'' ''b1'', Controller ''A'' ''a'', Controller ''B'' ''b2'']) n)
   \<and> (\<exists>dups. createNestAppModule [Controller ''B'' ''b1'', Controller ''A'' ''a'', Controller ''B'' ''b2'']
                = Inl (N9Error ''duplicated-controller'' 400 dups)
          \<and> distinct dups
          \<and> set dups = {n. 1 < count_list
                               (map name [Controller ''B'' ''b1'', Controller ''A'' ''a'', Controller ''B'' ''b2'']) n})
   \<and> \<not> (\<exists>n. 1 < count_list (map name [Controller ''A'' ''a'', Controller ''B'' ''b'']) n)
   \<and> (\<exists>m. createNestAppModule [Controller ''A'' ''a'', Controller ''B'' ''b''] = Inr m
          \<and> controllers m = [Controller ''A'' ''a'', Controller ''B'' ''b'']
          \<and> length (controllers m) = length [Controller ''A'' ''a'', Controller ''B'' ''b''])"
proof -
  have dup: "\<exists>n. 1 < count_list (map name [Controller ''B'' ''b1'', Controller ''A'' ''a'', Controller ''B'' ''b2'']) n"
    by (rule exI[of _ "''B''"]) simp
  have nodup: "\<not> (\<exists>n. 1 < count_list (map name [Controller ''A'' ''a'', Controller ''B'' ''b'']) n)"
    by simp
  from dup nodup
    createNestAppModule_duplicates[of "[Controller ''B'' ''b1'', Controller ''A'' ''a'', Controller ''B'' ''b2'']"]
    createNestAppModule_duplicates[of "[Controller ''A'' ''a'', Controller ''B'' ''b'']"]
  show ?thesis by blast
qed

section \<open>Properties of a run\<close>

lemma run_events: "set (fst (run steps)) \<subseteq> fst ` set steps"
proof (induction steps rule: run.induct)
  case 1 show ?case by simp
next
  case (2 ev steps) then show ?case by (auto split: prod.splits)
next
  case (3 ev e steps) show ?case by simp
qed





lemma default_http_logLevel:
  "logLevel (default_http p (http opts)) = default_logLevel (logLevel (supplied_http opts))"
  by (simp add: default_http_def supplied_http_def Let_def split: option.splits)


lemma default_http_validation:
  "validation (default_http p supplied) = Some [(''whitelist'', True), (''forbidNonWhitelisted'', True)]"
  by (simp add: default_http_def Let_def)

lemma default_http_hooks:
  "beforeRoutingControllerLaunchHook (default_http p (http opts)) =
     beforeRoutingControllerLaunchHook (supplied_http opts)"
  "afterRoutingControllerLaunchHook (default_http p (http opts)) =
     afterRoutingControllerLaunchHook (supplied_http opts)"
  "preventListen (default_http p (http opts)) = preventListen (supplied_http opts)"
  by (simp_all add: default_http_def supplied_http_def Let_def split: option.splits)

lemma planned_events:
  "map fst (bootstrap_steps e p h) =
     [Use SetRequestContext, Use Helmet, Use SessionLoaderInterceptor]
     @ (if log_level_truthy (logLevel h)
        then [CallMorgan (logLevel h), Use (Morgan (logLevel h))] else [])
     @ [CreateNestAppModule, BindSpecificRoutes, CreateServer]
     @ (case beforeRoutingControllerLaunchHook h of
          Some hk \<Rightarrow> [BeforeRoutingControllerLaunchHook] | None \<Rightarrow> [])
     @ [NestFactoryCreate, UseGlobalFilters,
        UseGlobalPipes (validation_pipe_options (after_before_hook h)), NestInit]
     @ (case afterRoutingControllerLaunchHook (after_before_hook h) of
          Some hk \<Rightarrow> [AfterRoutingControllerLaunchHook] | None \<Rightarrow> [])
     @ (if \<not> preventListen (after_after_hook (after_before_hook h))
        then [ServerListen (port (after_after_hook (after_before_hook h))),
              LogInfo (''Listening on port ''
                       @ port_text (port (after_after_hook (after_before_hook h))))]
        else [])"
  by (simp add: bootstrap_steps_def middleware_steps_def launch_steps_def listen_steps_def
        split: option.splits)



lemma launch_steps_no_Use: "ev \<in> fst ` set (launch_steps e p h) \<Longrightarrow> \<not> is_Use ev"
  by (auto simp: launch_steps_def listen_steps_def split: option.splits if_splits)

lemma launch_trace_no_Use: "ev \<in> set (fst (run (launch_steps e p h))) \<Longrightarrow> \<not> is_Use ev"
  using run_events[of "launch_steps e p h"] launch_steps_no_Use by blast

text \<open>The run of lines 110-137 and what follows it.\<close>

lemma run_bootstrap_steps:
  "run (bootstrap_steps e p h) =
     (if log_level_truthy (logLevel h)
      then (case morgan_construct e (logLevel h) of
              Some err \<Rightarrow>
                ([Use SetRequestContext, Use Helmet, Use SessionLoaderInterceptor,
                  CallMorgan (logLevel h)], Some err)
            | None \<Rightarrow>
                ([Use SetRequestContext, Use Helmet, Use SessionLoaderInterceptor,
                  CallMorgan (logLevel h), Use (Morgan (logLevel h))]
                 @ fst (run (launch_steps e p h)), snd (run (launch_steps e p h))))
      else ([Use SetRequestContext, Use Helmet, Use SessionLoaderInterceptor]
            @ fst (run (launch_steps e p h)), snd (run (launch_steps e p h))))"
  by (simp add: bootstrap_steps_def middleware_steps_def split: prod.splits option.splits)

lemma trace_run:
  "trace (startExpressApp e opts) = fst (run (bootstrap_steps e (path opts) (defaulted_http e opts)))"
  by (simp add: startExpressApp_def defaulted_http_def Let_def split: prod.splits)

lemma outcome_run:
  "outcome (startExpressApp e opts) =
     (case snd (run (bootstrap_steps e (path opts) (defaulted_http e opts))) of
        Some err \<Rightarrow> Inl err
      | None \<Rightarrow>
          Inr \<lparr>app = assemble_middleware e (defaulted_http e opts),
               server = (if \<not> preventListen (http_at_listen e opts)
                         then ListeningOn (port (http_at_listen e opts)) else NotListening)\<rparr>)"
  unfolding defaulted_http_def http_at_listen_def http_at_init_def
  by (simp add: startExpressApp_def Let_def split: prod.splits)


lemma bootstrap_succeeds:
  assumes "createNestAppModule (importClassesFromDirectories e [p @ ''/**/*.controller.*s'']) = Inr m"
    and "log_level_truthy (logLevel h) \<longrightarrow> morgan_construct e (logLevel h) = None"
    and "bindSpecificRoutes e = None" "NestFactory_create e = None" "nestApp_init e = None"
    and "\<And>hk. beforeRoutingControllerLaunchHook h = Some hk \<Longrightarrow> settles hk = None"
    and "\<And>hk. afterRoutingControllerLaunchHook (after_before_hook h) = Some hk \<Longrightarrow> settles hk = None"
    and "preventListen (after_after_hook (after_before_hook h)) \<or> server_event e = Listening"
  shows "run (bootstrap_steps e p h) = (map fst (bootstrap_steps e p h), None)"
proof -
  have launch: "run (launch_steps e p h) = (map fst (launch_steps e p h), None)"
    using assms(1,3-8)
    by (auto simp: launch_steps_def listen_steps_def split: option.splits)
  have ev: "map fst (bootstrap_steps e p h) =
      map fst (middleware_steps e h) @ map fst (launch_steps e p h)"
    by (simp add: bootstrap_steps_def)
  show ?thesis
    unfolding run_bootstrap_steps ev launch using assms(2)
    by (simp add: middleware_steps_def)
qed


lemma fold_assign_validation:
  "\<not> list_ex is_AssignValidation as \<Longrightarrow> validation (fold assign as h) = validation h"
proof (induction as arbitrary: h)
  case Nil show ?case by simp
next
  case (Cons a as)
  then show ?case by (cases a) auto
qed



lemma call_hook_validation:
  "\<not> assigns_validation hk \<Longrightarrow> validation (call_hook hk h) = validation h"
  by (simp add: assigns_validation_def call_hook_def fold_assign_validation)


lemma defaulted_hooks:
  "beforeRoutingControllerLaunchHook (defaulted_http e opts) =
     beforeRoutingControllerLaunchHook (supplied_http opts)"
  "afterRoutingControllerLaunchHook (defaulted_http e opts) =
     afterRoutingControllerLaunchHook (supplied_http opts)"
  "preventListen (defaulted_http e opts) = preventListen (supplied_http opts)"
  by (simp_all add: defaulted_http_def default_http_hooks)

lemma defaulted_logLevel:
  "logLevel (defaulted_http e opts) = default_logLevel (logLevel (supplied_http opts))"
  by (simp add: defaulted_http_def default_http_logLevel)


lemma defaulted_validation:
  "validation (defaulted_http e opts) = Some [(''whitelist'', True), (''forbidNonWhitelisted'', True)]"
  by (simp add: defaulted_http_def default_http_validation)

lemma no_hooks_at_init:
  "beforeRoutingControllerLaunchHook (supplied_http opts) = None \<Longrightarrow>
     http_at_init e opts = defaulted_http e opts"
  by (simp add: http_at_init_def after_before_hook_def defaulted_hooks)

lemma no_hooks_at_listen:
  "beforeRoutingControllerLaunchHook (supplied_http opts) = None \<Longrightarrow>
   afterRoutingControllerLaunchHook (supplied_http opts) = None \<Longrightarrow>
     http_at_listen e opts = defaulted_http e opts"
  by (simp add: http_at_listen_def after_after_hook_def no_hooks_at_init defaulted_hooks)

lemma trace_of_success:
  assumes "createNestAppModule (importClassesFromDirectories e [path opts @ ''/**/*.controller.*s'']) = Inr m"
    and "log_level_truthy (logLevel (defaulted_http e opts)) \<longrightarrow>
           morgan_construct e (logLevel (defaulted_http e opts)) = None"
    and "bindSpecificRoutes e = None" "NestFactory_create e = None" "nestApp_init e = None"
    and "\<And>hk. beforeRoutingControllerLaunchHook (supplied_http opts) = Some hk \<Longrightarrow> settles hk = None"
    and "\<And>hk. afterRoutingControllerLaunchHook (http_at_init e opts) = Some hk \<Longrightarrow> settles hk = None"
    and "preventListen (http_at_listen e opts) \<or> server_event e = Listening"
  shows "run (bootstrap_steps e (path opts) (defaulted_http e opts)) =
           (map fst (bootstrap_steps e (path opts) (defaulted_http e opts)), None)"
  using assms(1-5,8) assms(6)[unfolded defaulted_hooks(1)[symmetric, of opts e]] assms(7)
  unfolding http_at_listen_def http_at_init_def
  by (intro bootstrap_succeeds) auto

lemma example_scan:
  "createNestAppModule (importClassesFromDirectories example_env pats) =
     Inr \<lparr>controllers = [Controller ''UsersController'' ''users.controller.ts'',
                         Controller ''ValidateController'' ''json2.controller.ts''],
          module_imports = [RootModule]\<rparr>"
  by (simp add: example_env_def createNestAppModule_def uniqBy_def)

lemma example_env_fields:
  "bindSpecificRoutes example_env = None" "NestFactory_create example_env = None"
  "nestApp_init example_env = None" "server_event example_env = Listening"
  "env_PORT example_env = None" "morgan_format example_env fmt = None"
  by (simp_all add: example_env_def)

lemma example_morgan:
  "l \<noteq> LogLevelBoolean True \<Longrightarrow> morgan_construct example_env l = None"
  by (cases l) (auto simp: example_env_fields)

lemma string_of_5000: "string_of_int 5000 = ''5000''"
  by (simp add: string_of_int_def string_of_nat.simps digit_char_def)

lemma string_of_80: "port_text (Some (PortNumber 80)) = ''80''"
  by (simp add: string_of_int_def string_of_nat.simps digit_char_def)

section \<open>Request logging is installed unless it is switched off\<close>

lemma logging_installed_run:
  "logging_installed (trace (startExpressApp e opts)) \<longleftrightarrow>
     log_level_truthy (logLevel (defaulted_http e opts))
     \<and> morgan_construct e (logLevel (defaulted_http e opts)) = None"
proof -
  have rest: "\<not> list_ex is_Use_Morgan (fst (run (launch_steps e p h)))" for p h
  proof
    assume "list_ex is_Use_Morgan (fst (run (launch_steps e p h)))"
    then obtain ev where ev: "ev \<in> set (fst (run (launch_steps e p h)))" "is_Use_Morgan ev"
      by (auto simp: list_ex_iff)
    from ev(2) have "is_Use ev" by (cases ev) auto
    with ev(1) show False using launch_trace_no_Use by blast
  qed
  show ?thesis
    unfolding trace_run run_bootstrap_steps logging_installed_def
    using rest by (auto split: option.splits)
qed

lemma morgan_rejects_run:
  assumes "log_level_truthy (logLevel (defaulted_http e opts))"
    and "morgan_construct e (logLevel (defaulted_http e opts)) = Some err"
  shows "outcome (startExpressApp e opts) = Inl err"
    and "trace (startExpressApp e opts) =
           [Use SetRequestContext, Use Helmet, Use SessionLoaderInterceptor,
            CallMorgan (logLevel (defaulted_http e opts))]"
  using assms unfolding outcome_run trace_run run_bootstrap_steps by simp_all

lemma Use_Morgan_in_trace:
  assumes "log_level_truthy (logLevel (defaulted_http e opts))"
    and "morgan_construct e (logLevel (defaulted_http e opts)) = None"
  shows "Use (Morgan (logLevel (defaulted_http e opts))) \<in> set (trace (startExpressApp e opts))"
  using assms unfolding trace_run run_bootstrap_steps by simp

text \<open>
  C2, as the code has it. The access-log middleware is passed to \<^verbatim>\<open>expressApp.use\<close> exactly
  when the log-format option the caller supplied is \<^verbatim>\<open>undefined\<close> or truthy and morgan
  accepts the option, as it is after defaulting, as a format. An absent option is replaced
  by the built-in format function before the test of line 115; morgan accepts every
  function, so access logging is then installed with that function. A truthy option that
  morgan accepts is installed as it is. A supplied falsy value (\<^verbatim>\<open>false\<close>, the empty string)
  switches access logging off. When morgan throws for a truthy option, no access-log
  middleware is installed and the bootstrap rejects with what morgan threw.
\<close>

theorem logging_installed_when_accepted:
  "(logging_installed (trace (startExpressApp e opts)) \<longleftrightarrow>
      (logLevel (supplied_http opts) = LogLevelUndefined
       \<or> log_level_truthy (logLevel (supplied_http opts)))
      \<and> morgan_construct e (default_logLevel (logLevel (supplied_http opts))) = None)
   \<and> (logLevel (supplied_http opts) = LogLevelUndefined \<longrightarrow>
        Use (Morgan (LogLevelFunction DefaultFormat)) \<in> set (trace (startExpressApp e opts)))
   \<and> (log_level_truthy (logLevel (supplied_http opts))
        \<and> morgan_construct e (logLevel (supplied_http opts)) = None \<longrightarrow>
        Use (Morgan (logLevel (supplied_http opts))) \<in> set (trace (startExpressApp e opts)))
   \<and> (\<forall>err. log_level_truthy (logLevel (supplied_http opts))
          \<and> morgan_construct e (logLevel (supplied_http opts)) = Some err \<longrightarrow>
          outcome (startExpressApp e opts) = Inl err
          \<and> \<not> logging_installed (trace (startExpressApp e opts)))"
proof -
  define l where "l = logLevel (supplied_http opts)"
  have dl: "logLevel (defaulted_http e opts) = default_logLevel l"
    by (simp add: l_def defaulted_logLevel)
  have truthy: "log_level_truthy (default_logLevel l) \<longleftrightarrow> l = LogLevelUndefined \<or> log_level_truthy l"
    by (cases l) (auto simp: default_logLevel_def)
  have keep: "log_level_truthy l \<Longrightarrow> default_logLevel l = l"
    by (cases l) (auto simp: default_logLevel_def)
  have p1: "logging_installed (trace (startExpressApp e opts)) \<longleftrightarrow>
      (l = LogLevelUndefined \<or> log_level_truthy l) \<and> morgan_construct e (default_logLevel l) = None"
    unfolding logging_installed_run dl truthy ..
  have p2: "l = LogLevelUndefined \<longrightarrow>
        Use (Morgan (LogLevelFunction DefaultFormat)) \<in> set (trace (startExpressApp e opts))"
  proof
    assume u: "l = LogLevelUndefined"
    then have "default_logLevel l = LogLevelFunction DefaultFormat" by (simp add: default_logLevel_def)
    with Use_Morgan_in_trace[of e opts] show
      "Use (Morgan (LogLevelFunction DefaultFormat)) \<in> set (trace (startExpressApp e opts))"
      unfolding dl by simp
  qed
  have p3: "log_level_truthy l \<and> morgan_construct e l = None \<longrightarrow>
        Use (Morgan l) \<in> set (trace (startExpressApp e opts))"
  proof
    assume a: "log_level_truthy l \<and> morgan_construct e l = None"
    with keep have "default_logLevel l = l" by blast
    with a Use_Morgan_in_trace[of e opts] show "Use (Morgan l) \<in> set (trace (startExpressApp e opts))"
      unfolding dl by simp
  qed
  have p4: "\<forall>err. log_level_truthy l \<and> morgan_construct e l = Some err \<longrightarrow>
          outcome (startExpressApp e opts) = Inl err
          \<and> \<not> logging_installed (trace (startExpressApp e opts))"
  proof (intro allI impI)
    fix err assume a: "log_level_truthy l \<and> morgan_construct e l = Some err"
    with keep have k: "default_logLevel l = l" by blast
    from a k have "outcome (startExpressApp e opts) = Inl err"
      using morgan_rejects_run(1)[of e opts err] unfolding dl by simp
    moreover from a k have "\<not> logging_installed (trace (startExpressApp e opts))"
      unfolding p1 by simp
    ultimately show "outcome (startExpressApp e opts) = Inl err
          \<and> \<not> logging_installed (trace (startExpressApp e opts))" ..
  qed
  from p1 p2 p3 p4 show ?thesis unfolding l_def by (intro conjI)
qed

theorem logging_installed_when_accepted_witness:
  "logLevel (supplied_http \<lparr>path = ''src'', http = None, enableRequestId = False\<rparr>) = LogLevelUndefined
   \<and> logging_installed (trace (startExpressApp example_env \<lparr>path = ''src'', http = None, enableRequestId = False\<rparr>))
   \<and> Use (Morgan (LogLevelFunction DefaultFormat))
        \<in> set (trace (startExpressApp example_env \<lparr>path = ''src'', http = None, enableRequestId = False\<rparr>))
   \<and> Use (Morgan (LogLevelString ''dev''))
        \<in> set (trace (startExpressApp example_env
             \<lparr>path = ''src'', http = Some (empty_http\<lparr>logLevel := LogLevelString ''dev''\<rparr>), enableRequestId = False\<rparr>))
   \<and> \<not> logging_installed (trace (startExpressApp example_env
             \<lparr>path = ''src'', http = Some (empty_http\<lparr>logLevel := LogLevelBoolean False\<rparr>), enableRequestId = False\<rparr>))
   \<and> outcome (startExpressApp example_env
             \<lparr>path = ''src'', http = Some (empty_http\<lparr>logLevel := LogLevelBoolean True\<rparr>), enableRequestId = False\<rparr>)
        = Inl (TypeError ''argument format must be a string'')
   \<and> \<not> logging_installed (trace (startExpressApp example_env
             \<lparr>path = ''src'', http = Some (empty_http\<lparr>logLevel := LogLevelBoolean True\<rparr>), enableRequestId = False\<rparr>))"
proof -
  let ?o1 = "\<lparr>path = ''src'', http = None, enableRequestId = False\<rparr>"
  let ?o2 = "\<lparr>path = ''src'', http = Some (empty_http\<lparr>logLevel := LogLevelString ''dev''\<rparr>), enableRequestId = False\<rparr>"
  let ?o3 = "\<lparr>path = ''src'', http = Some (empty_http\<lparr>logLevel := LogLevelBoolean False\<rparr>), enableRequestId = False\<rparr>"
  let ?o4 = "\<lparr>path = ''src'', http = Some (empty_http\<lparr>logLevel := LogLevelBoolean True\<rparr>), enableRequestId = False\<rparr>"
  have l1: "logLevel (supplied_http ?o1) = LogLevelUndefined"
    and l2: "logLevel (supplied_http ?o2) = LogLevelString ''dev''"
    and l3: "logLevel (supplied_http ?o3) = LogLevelBoolean False"
    and l4: "logLevel (supplied_http ?o4) = LogLevelBoolean True"
    by (simp_all add: supplied_http_def empty_http_def)
  note t1 = logging_installed_when_accepted[of example_env ?o1, unfolded l1]
  note t2 = logging_installed_when_accepted[of example_env ?o2, unfolded l2]
  note t3 = logging_installed_when_accepted[of example_env ?o3, unfolded l3]
  note t4 = logging_installed_when_accepted[of example_env ?o4, unfolded l4]
  have a: "logging_installed (trace (startExpressApp example_env ?o1))"
    using t1[THEN conjunct1] by (simp add: default_logLevel_def)
  have b: "Use (Morgan (LogLevelFunction DefaultFormat)) \<in> set (trace (startExpressApp example_env ?o1))"
    using t1[THEN conjunct2, THEN conjunct1] by simp
  have c: "Use (Morgan (LogLevelString ''dev'')) \<in> set (trace (startExpressApp example_env ?o2))"
    using t2[THEN conjunct2, THEN conjunct2, THEN conjunct1] by (simp add: example_env_fields)
  have d: "\<not> logging_installed (trace (startExpressApp example_env ?o3))"
    using t3[THEN conjunct1] by simp
  have e: "outcome (startExpressApp example_env ?o4) = Inl (TypeError ''argument format must be a string'')
      \<and> \<not> logging_installed (trace (startExpressApp example_env ?o4))"
    using t4[THEN conjunct2, THEN conjunct2, THEN conjunct2] by simp
  from l1 a b c d e show ?thesis by (intro conjI) blast+
qed

text \<open>
  The claim as stated fails for the options object without \<^verbatim>\<open>http\<close>: the log-format
  option is absent, hence not truthy, and the access-log middleware is installed.
\<close>

theorem logging_default_counterexample:
  "logLevel (supplied_http \<lparr>path = ''src'', http = None, enableRequestId = False\<rparr>) = LogLevelUndefined
   \<and> \<not> log_level_truthy (logLevel (supplied_http \<lparr>path = ''src'', http = None, enableRequestId = False\<rparr>))
   \<and> logging_installed (trace (startExpressApp example_env \<lparr>path = ''src'', http = None, enableRequestId = False\<rparr>))"
  by (simp add: logging_installed_run defaulted_logLevel default_logLevel_def
        empty_http_def supplied_http_def)

section \<open>The logging adapter\<close>

text \<open>
  \<^verbatim>\<open>write\<close> returns with one call of the logger's \<^verbatim>\<open>info\<close> for every line and either
  value of the flag: whatever the \<^verbatim>\<open>try\<close> block throws, a failure of \<^verbatim>\<open>JSON.parse\<close>
  included, is caught and logged under the key \<open>error\<close>. In both modes the message goes
  through the same \<^verbatim>\<open>replace\<close>, which removes the first newline and no other.
\<close>

lemma stream_write_returns: "\<exists>call. stream_write js formatLogInJSON message = Inr call"
  by (auto simp: stream_write_def split: sum.splits)

lemma stream_write_fallback:
  "write_try js message = Inl err \<Longrightarrow>
     stream_write js True message =
       Inr (Info (strip_newline message) (Some [(''error'', ErrorObject err)]))"
  by (simp add: stream_write_def)

lemma parse_failure_caught: "JSON_parse js message = Inl err \<Longrightarrow> write_try js message = Inl err"
  by (simp add: write_try_def)

lemma stream_write_plain:
  "stream_write js False message = Inr (Info (strip_newline message) None)"
  by (simp add: stream_write_def)

lemma replace_first_absent: "c \<notin> set s \<Longrightarrow> replace_first c s = s"
  by (induction s) auto

lemma replace_first_split: "c \<notin> set a \<Longrightarrow> replace_first c (a @ c # b) = a @ b"
  by (induction a) auto

lemma replace_first_once: "count_list s c \<le> 1 \<Longrightarrow> c \<notin> set (replace_first c s)"
  by (induction s) (auto simp: count_list_0_iff split: if_splits)

text \<open>
  C4, at a line the code handles differently from the claim. In structured mode the line
  \<open>a\<close>, newline, \<open>b\<close>, newline is not JSON, so \<^verbatim>\<open>JSON.parse\<close> fails; \<^verbatim>\<open>write\<close> does not throw
  and logs the parse error as metadata, but the message it logs is \<open>ab\<close> followed by a
  newline: the raw line is not stripped of its newlines, only of the first.
\<close>

theorem structured_fallback_keeps_second_newline:
  "JSON_parse rejecting_js [CHR ''a'', newline, CHR ''b'', newline]
     = Inl (Error ''Unexpected token in JSON at position 0'' None None)
   \<and> stream_write rejecting_js True [CHR ''a'', newline, CHR ''b'', newline]
     = Inr (Info [CHR ''a'', CHR ''b'', newline]
              (Some [(''error'', ErrorObject (Error ''Unexpected token in JSON at position 0'' None None))]))
   \<and> newline \<in> set [CHR ''a'', CHR ''b'', newline]"
proof -
  have p: "JSON_parse rejecting_js [CHR ''a'', newline, CHR ''b'', newline]
     = Inl (Error ''Unexpected token in JSON at position 0'' None None)"
    by (simp add: rejecting_js_def)
  have s: "strip_newline [CHR ''a'', newline, CHR ''b'', newline] = [CHR ''a'', CHR ''b'', newline]"
    by (simp add: strip_newline_def newline_def)
  from stream_write_fallback[OF parse_failure_caught[OF p]] p s show ?thesis by simp
qed

text \<open>
  C5, at a line the code handles differently from the claim. In plain mode the line
  \<open>a\<close>, newline, \<open>b\<close>, newline is logged as \<open>ab\<close> followed by a newline: the embedded
  newline is removed and the one at the end is kept.
\<close>

theorem plain_mode_keeps_second_newline:
  "stream_write rejecting_js False [CHR ''a'', newline, CHR ''b'', newline]
     = Inr (Info [CHR ''a'', CHR ''b'', newline] None)
   \<and> newline \<in> set [CHR ''a'', CHR ''b'', newline]"
  by (simp add: stream_write_def strip_newline_def newline_def)

section \<open>Listen errors\<close>

lemma contains_middle: "contains (a @ b @ c) b"
proof -
  have "length a \<in> set [0 ..< Suc (length (a @ b @ c))]" by simp
  moreover have "take (length b) (drop (length a) (a @ b @ c)) = b" by simp
  ultimately show ?thesis unfolding contains_def list_ex_iff by blast
qed

lemma contains_suffix: "contains (a @ b) b"
  using contains_middle[of a b "[]"] by simp

text \<open>
  C6. \<^verbatim>\<open>analyzeError\<close> returns an error whose \<^verbatim>\<open>syscall\<close> is not \<open>listen\<close> unchanged.
  For an error of the \<open>listen\<close> call, the code \<open>EACCES\<close> gives a new error whose message
  is \<open>Port\<close>, the configured port and \<open>requires elevated privileges\<close>, the code
  \<open>EADDRINUSE\<close> one whose message is \<open>Port\<close>, the configured port and
  \<open>is already in use\<close>; both messages contain the port and the phrase. Every other
  code is returned unchanged. The port is named by its text, which for a port that is
  there is its decimal digits or the string itself.
\<close>

theorem analyzeError_translation:
  "(syscall err \<noteq> Some ''listen'' \<longrightarrow> analyzeError p err = err)
   \<and> (syscall err = Some ''listen'' \<and> code err = Some ''EACCES'' \<longrightarrow>
        analyzeError p err =
          Error (''Port '' @ port_text p @ '' requires elevated privileges'') None None
        \<and> contains (message_of (analyzeError p err)) (port_text p)
        \<and> contains (message_of (analyzeError p err)) ''requires elevated privileges'')
   \<and> (syscall err = Some ''listen'' \<and> code err = Some ''EADDRINUSE'' \<longrightarrow>
        analyzeError p err =
          Error (''Port '' @ port_text p @ '' is already in use'') None None
        \<and> contains (message_of (analyzeError p err)) (port_text p)
        \<and> contains (message_of (analyzeError p err)) ''is already in use'')
   \<and> (syscall err = Some ''listen'' \<and> code err \<noteq> Some ''EACCES'' \<and> code err \<noteq> Some ''EADDRINUSE'' \<longrightarrow>
        analyzeError p err = err)
   \<and> (\<forall>q. p = Some q \<longrightarrow> port_text p = port_to_string q)"
proof -
  have c1: "contains (''Port '' @ s @ '' requires elevated privileges'') s" for s
    by (rule contains_middle)
  have c2: "contains (''Port '' @ s @ '' requires elevated privileges'') ''requires elevated privileges''" for s
    using contains_suffix[of "''Port '' @ s @ '' ''" "''requires elevated privileges''"] by simp
  have c3: "contains (''Port '' @ s @ '' is already in use'') s" for s
    by (rule contains_middle)
  have c4: "contains (''Port '' @ s @ '' is already in use'') ''is already in use''" for s
    using contains_suffix[of "''Port '' @ s @ '' ''" "''is already in use''"] by simp
  have e1: "syscall err = Some ''listen'' \<Longrightarrow> code err = Some ''EACCES'' \<Longrightarrow>
      analyzeError p err = Error (''Port '' @ port_text p @ '' requires elevated privileges'') None None"
    by (simp add: analyzeError_def)
  have e2: "syscall err = Some ''listen'' \<Longrightarrow> code err = Some ''EADDRINUSE'' \<Longrightarrow>
      analyzeError p err = Error (''Port '' @ port_text p @ '' is already in use'') None None"
    by (simp add: analyzeError_def)
  show ?thesis
  proof (intro conjI impI allI; (elim conjE)?)
    assume "syscall err \<noteq> Some ''listen''"
    then show "analyzeError p err = err" by (simp add: analyzeError_def)
  next
    assume a: "syscall err = Some ''listen''" "code err = Some ''EACCES''"
    show "analyzeError p err = Error (''Port '' @ port_text p @ '' requires elevated privileges'') None None"
      by (rule e1[OF a])
    show "contains (message_of (analyzeError p err)) (port_text p)"
      unfolding e1[OF a] message_of.simps by (rule c1)
    show "contains (message_of (analyzeError p err)) ''requires elevated privileges''"
      unfolding e1[OF a] message_of.simps by (rule c2)
  next
    assume a: "syscall err = Some ''listen''" "code err = Some ''EADDRINUSE''"
    show "analyzeError p err = Error (''Port '' @ port_text p @ '' is already in use'') None None"
      by (rule e2[OF a])
    show "contains (message_of (analyzeError p err)) (port_text p)"
      unfolding e2[OF a] message_of.simps by (rule c3)
    show "contains (message_of (analyzeError p err)) ''is already in use''"
      unfolding e2[OF a] message_of.simps by (rule c4)
  next
    assume "syscall err = Some ''listen''" "code err \<noteq> Some ''EACCES''" "code err \<noteq> Some ''EADDRINUSE''"
    then show "analyzeError p err = err" by (simp add: analyzeError_def)
  next
    fix q assume "p = Some q"
    then show "port_text p = port_to_string q" by simp
  qed
qed

theorem analyzeError_translation_witness:
  "syscall (Error ''listen EACCES: permission denied 0.0.0.0:80'' (Some ''listen'') (Some ''EACCES'')) = Some ''listen''
   \<and> code (Error ''listen EACCES: permission denied 0.0.0.0:80'' (Some ''listen'') (Some ''EACCES'')) = Some ''EACCES''
   \<and> analyzeError (Some (PortNumber 80))
        (Error ''listen EACCES: permission denied 0.0.0.0:80'' (Some ''listen'') (Some ''EACCES''))
       = Error ''Port 80 requires elevated privileges'' None None
   \<and> contains (message_of (analyzeError (Some (PortNumber 80))
        (Error ''listen EACCES: permission denied 0.0.0.0:80'' (Some ''listen'') (Some ''EACCES'')))) ''80''
   \<and> analyzeError (Some (PortNumber 80))
        (Error ''listen EADDRINUSE: address already in use :::80'' (Some ''listen'') (Some ''EADDRINUSE''))
       = Error ''Port 80 is already in use'' None None
   \<and> syscall (Error ''connect ECONNREFUSED'' (Some ''connect'') (Some ''ECONNREFUSED'')) \<noteq> Some ''listen''
   \<and> analyzeError (Some (PortNumber 80)) (Error ''connect ECONNREFUSED'' (Some ''connect'') (Some ''ECONNREFUSED''))
       = Error ''connect ECONNREFUSED'' (Some ''connect'') (Some ''ECONNREFUSED'')"
proof -
  let ?e1 = "Error ''listen EACCES: permission denied 0.0.0.0:80'' (Some ''listen'') (Some ''EACCES'')"
  let ?e2 = "Error ''listen EADDRINUSE: address already in use :::80'' (Some ''listen'') (Some ''EADDRINUSE'')"
  let ?e3 = "Error ''connect ECONNREFUSED'' (Some ''connect'') (Some ''ECONNREFUSED'')"
  have s1: "syscall ?e1 = Some ''listen''" "code ?e1 = Some ''EACCES''" by simp_all
  have s2: "syscall ?e2 = Some ''listen''" "code ?e2 = Some ''EADDRINUSE''" by simp_all
  have s3: "syscall ?e3 \<noteq> Some ''listen''" by simp
  have r1: "analyzeError (Some (PortNumber 80)) ?e1
              = Error (''Port '' @ ''80'' @ '' requires elevated privileges'') None None
            \<and> contains (message_of (analyzeError (Some (PortNumber 80)) ?e1)) ''80''"
    using analyzeError_translation[of ?e1 "Some (PortNumber 80)"] s1 unfolding string_of_80 by blast
  have r2: "analyzeError (Some (PortNumber 80)) ?e2
              = Error (''Port '' @ ''80'' @ '' is already in use'') None None"
    using analyzeError_translation[of ?e2 "Some (PortNumber 80)"] s2 unfolding string_of_80 by blast
  have r3: "analyzeError (Some (PortNumber 80)) ?e3 = ?e3"
    using analyzeError_translation[of ?e3 "Some (PortNumber 80)"] s3 by blast
  from r1 have r1a: "analyzeError (Some (PortNumber 80)) ?e1
              = Error ''Port 80 requires elevated privileges'' None None" by simp
  from r2 have r2a: "analyzeError (Some (PortNumber 80)) ?e2 = Error ''Port 80 is already in use'' None None"
    by simp
  from s1 r1a r1[THEN conjunct2] r2a s3 r3 show ?thesis by (intro conjI)
qed

section \<open>The middleware pipeline\<close>

text \<open>
  C7. In every call of \<^verbatim>\<open>startExpressApp\<close> the calls made begin with the calls of
  \<^verbatim>\<open>expressApp.use\<close> in the fixed order request context, security headers, session
  loader; then, when the log-format option is truthy after defaulting, morgan is
  constructed and, if that returns, installed by a fourth \<^verbatim>\<open>use\<close>; no later call is a
  \<^verbatim>\<open>use\<close>. The application returned on success holds the middleware in that order. Hence
  wherever morgan is installed the request context was installed before it, and wherever
  the dispatch engine is constructed or initialised the session loader was installed
  before it.
\<close>

theorem middleware_order:
  "(\<exists>rest. trace (startExpressApp e opts) =
       [Use SetRequestContext, Use Helmet, Use SessionLoaderInterceptor]
       @ (if log_level_truthy (default_logLevel (logLevel (supplied_http opts)))
          then CallMorgan (default_logLevel (logLevel (supplied_http opts)))
               # (if morgan_construct e (default_logLevel (logLevel (supplied_http opts))) = None
                  then Use (Morgan (default_logLevel (logLevel (supplied_http opts)))) # rest
                  else [])
          else rest)
       \<and> (\<forall>ev \<in> set rest. \<not> is_Use ev))
   \<and> (\<forall>ret. outcome (startExpressApp e opts) = Inr ret \<longrightarrow>
         app ret =
           [SetRequestContext, Helmet, SessionLoaderInterceptor]
           @ (if log_level_truthy (default_logLevel (logLevel (supplied_http opts)))
              then [Morgan (default_logLevel (logLevel (supplied_http opts)))]
              else []))
   \<and> (\<forall>j l. j < length (trace (startExpressApp e opts))
           \<and> trace (startExpressApp e opts) ! j = Use (Morgan l) \<longrightarrow>
         (\<exists>i<j. trace (startExpressApp e opts) ! i = Use SetRequestContext))
   \<and> (\<forall>j. j < length (trace (startExpressApp e opts))
           \<and> (trace (startExpressApp e opts) ! j = NestFactoryCreate
               \<or> trace (startExpressApp e opts) ! j = NestInit) \<longrightarrow>
         (\<exists>i<j. trace (startExpressApp e opts) ! i = Use SessionLoaderInterceptor))"
proof -
  define h where "h = defaulted_http e opts"
  define l where "l = default_logLevel (logLevel (supplied_http opts))"
  define rest where "rest = fst (run (launch_steps e (path opts) h))"
  define t where "t = trace (startExpressApp e opts)"
  have hl: "logLevel h = l" by (simp add: h_def l_def defaulted_logLevel)
  have rest: "\<forall>ev \<in> set rest. \<not> is_Use ev"
    using launch_trace_no_Use by (auto simp: rest_def)
  have shape: "t = [Use SetRequestContext, Use Helmet, Use SessionLoaderInterceptor]
       @ (if log_level_truthy l
          then CallMorgan l # (if morgan_construct e l = None then Use (Morgan l) # rest else [])
          else rest)"
    unfolding t_def trace_run run_bootstrap_steps h_def[symmetric] hl rest_def
    by (simp split: option.splits)
  have t0: "t ! 0 = Use SetRequestContext" and t1: "t ! 1 = Use Helmet"
    and t2: "t ! 2 = Use SessionLoaderInterceptor"
    by (simp_all add: shape)
  have p1: "\<exists>rest. t = [Use SetRequestContext, Use Helmet, Use SessionLoaderInterceptor]
       @ (if log_level_truthy l
          then CallMorgan l # (if morgan_construct e l = None then Use (Morgan l) # rest else [])
          else rest)
       \<and> (\<forall>ev \<in> set rest. \<not> is_Use ev)"
    using shape rest by blast
  have p2: "\<forall>ret. outcome (startExpressApp e opts) = Inr ret \<longrightarrow>
         app ret = [SetRequestContext, Helmet, SessionLoaderInterceptor]
           @ (if log_level_truthy l then [Morgan l] else [])"
  proof (intro allI impI)
    fix ret assume ok: "outcome (startExpressApp e opts) = Inr ret"
    then have none: "snd (run (bootstrap_steps e (path opts) h)) = None"
      unfolding outcome_run h_def by (auto split: option.splits)
    then have acc: "log_level_truthy l \<longrightarrow> morgan_construct e l = None"
      unfolding run_bootstrap_steps hl by (auto split: option.splits if_splits)
    from ok none have "app ret = assemble_middleware e h"
      unfolding outcome_run h_def by auto
    with acc show "app ret = [SetRequestContext, Helmet, SessionLoaderInterceptor]
           @ (if log_level_truthy l then [Morgan l] else [])"
      by (simp add: assemble_middleware_def hl)
  qed
  have p3: "\<forall>j l. j < length t \<and> t ! j = Use (Morgan l) \<longrightarrow> (\<exists>i<j. t ! i = Use SetRequestContext)"
  proof (intro allI impI)
    fix j l assume j: "j < length t \<and> t ! j = Use (Morgan l)"
    with t0 have "j \<noteq> 0" by (cases j) auto
    then have "0 < j" by simp
    with t0 show "\<exists>i<j. t ! i = Use SetRequestContext" by blast
  qed
  have p4: "\<forall>j. j < length t \<and> (t ! j = NestFactoryCreate \<or> t ! j = NestInit) \<longrightarrow>
         (\<exists>i<j. t ! i = Use SessionLoaderInterceptor)"
  proof (intro allI impI)
    fix j assume j: "j < length t \<and> (t ! j = NestFactoryCreate \<or> t ! j = NestInit)"
    from j have nu: "\<not> is_Use (t ! j)" by auto
    have "j \<noteq> 0" using nu t0 by (intro notI) simp
    moreover have "j \<noteq> 1" using nu t1 by (intro notI) simp
    moreover have "j \<noteq> 2" using nu t2 by (intro notI) simp
    ultimately have "j \<noteq> 0" "j \<noteq> 1" "j \<noteq> 2" by blast+
    then have "2 < j" by arith
    with t2 show "\<exists>i<j. t ! i = Use SessionLoaderInterceptor" by blast
  qed
  from p1 p2 p3 p4 show ?thesis unfolding t_def l_def by (intro conjI)
qed

theorem middleware_order_witness:
  "outcome (startExpressApp example_env \<lparr>path = ''src'', http = None, enableRequestId = False\<rparr>)
     = Inr \<lparr>app = [SetRequestContext, Helmet, SessionLoaderInterceptor, Morgan (LogLevelFunction DefaultFormat)],
            server = ListeningOn (Some (PortNumber 5000))\<rparr>
   \<and> app \<lparr>app = [SetRequestContext, Helmet, SessionLoaderInterceptor, Morgan (LogLevelFunction DefaultFormat)],
            server = ListeningOn (Some (PortNumber 5000))\<rparr>
       = [SetRequestContext, Helmet, SessionLoaderInterceptor]
           @ (if log_level_truthy (default_logLevel (logLevel (supplied_http
                   \<lparr>path = ''src'', http = None, enableRequestId = False\<rparr>)))
              then [Morgan (default_logLevel (logLevel (supplied_http
                   \<lparr>path = ''src'', http = None, enableRequestId = False\<rparr>)))]
              else [])
   \<and> 8 < length (trace (startExpressApp example_env \<lparr>path = ''src'', http = None, enableRequestId = False\<rparr>))
   \<and> trace (startExpressApp example_env \<lparr>path = ''src'', http = None, enableRequestId = False\<rparr>) ! 4
       = Use (Morgan (LogLevelFunction DefaultFormat))
   \<and> (\<exists>i<4. trace (startExpressApp example_env \<lparr>path = ''src'', http = None, enableRequestId = False\<rparr>) ! i
         = Use SetRequestContext)
   \<and> trace (startExpressApp example_env \<lparr>path = ''src'', http = None, enableRequestId = False\<rparr>) ! 8
       = NestFactoryCreate
   \<and> (\<exists>i<8. trace (startExpressApp example_env \<lparr>path = ''src'', http = None, enableRequestId = False\<rparr>) ! i
         = Use SessionLoaderInterceptor)"
proof -
  let ?opts = "\<lparr>path = ''src'', http = None, enableRequestId = False\<rparr>"
  have h: "defaulted_http example_env ?opts =
      \<lparr>port = Some (PortNumber 5000), logLevel = LogLevelFunction DefaultFormat,
       validation = Some [(''whitelist'', True), (''forbidNonWhitelisted'', True)],
       beforeRoutingControllerLaunchHook = None, afterRoutingControllerLaunchHook = None,
       preventListen = False\<rparr>"
    by (simp add: defaulted_http_def default_http_def empty_http_def default_port_def
          default_logLevel_def Let_def example_env_fields)
  have sup: "beforeRoutingControllerLaunchHook (supplied_http ?opts) = None"
    "afterRoutingControllerLaunchHook (supplied_http ?opts) = None"
    by (simp_all add: supplied_http_def empty_http_def)
  have hi: "http_at_init example_env ?opts = defaulted_http example_env ?opts"
    and hl: "http_at_listen example_env ?opts = defaulted_http example_env ?opts"
    using sup by (simp_all add: no_hooks_at_init no_hooks_at_listen)
  have run: "run (bootstrap_steps example_env (path ?opts) (defaulted_http example_env ?opts))
      = (map fst (bootstrap_steps example_env (path ?opts) (defaulted_http example_env ?opts)), None)"
    by (rule trace_of_success[OF example_scan]) (simp_all add: example_env_fields hi hl h sup)
  have ab: "after_before_hook (defaulted_http example_env ?opts) = defaulted_http example_env ?opts"
    using hi by (simp add: http_at_init_def)
  have aa: "after_after_hook (defaulted_http example_env ?opts) = defaulted_http example_env ?opts"
    using hl by (simp add: http_at_listen_def http_at_init_def ab)
  have t: "trace (startExpressApp example_env ?opts) =
      [Use SetRequestContext, Use Helmet, Use SessionLoaderInterceptor,
       CallMorgan (LogLevelFunction DefaultFormat),
       Use (Morgan (LogLevelFunction DefaultFormat)),
       CreateNestAppModule, BindSpecificRoutes, CreateServer,
       NestFactoryCreate, UseGlobalFilters,
       UseGlobalPipes [(''transform'', True), (''whitelist'', True), (''forbidNonWhitelisted'', True)],
       NestInit, ServerListen (Some (PortNumber 5000)), LogInfo ''Listening on port 5000'']"
    unfolding trace_run run fst_conv planned_events ab aa
    by (simp add: h validation_pipe_options_def string_of_5000)
  have out: "outcome (startExpressApp example_env ?opts)
     = Inr \<lparr>app = [SetRequestContext, Helmet, SessionLoaderInterceptor, Morgan (LogLevelFunction DefaultFormat)],
            server = ListeningOn (Some (PortNumber 5000))\<rparr>"
    unfolding outcome_run run snd_conv hl
    by (simp add: h assemble_middleware_def)
  have len: "8 < length (trace (startExpressApp example_env ?opts))" by (simp add: t)
  have l4: "4 < length (trace (startExpressApp example_env ?opts))" by (simp add: t)
  have t4: "trace (startExpressApp example_env ?opts) ! 4 = Use (Morgan (LogLevelFunction DefaultFormat))"
    by (simp add: t)
  have t8: "trace (startExpressApp example_env ?opts) ! 8 = NestFactoryCreate"
    by (simp add: t)
  note th = middleware_order[of example_env ?opts]
  from th[THEN conjunct2, THEN conjunct1] out
  have a: "app \<lparr>app = [SetRequestContext, Helmet, SessionLoaderInterceptor, Morgan (LogLevelFunction DefaultFormat)],
            server = ListeningOn (Some (PortNumber 5000))\<rparr>
       = [SetRequestContext, Helmet, SessionLoaderInterceptor]
           @ (if log_level_truthy (default_logLevel (logLevel (supplied_http ?opts)))
              then [Morgan (default_logLevel (logLevel (supplied_http ?opts)))]
              else [])"
    by blast
  from th[THEN conjunct2, THEN conjunct2, THEN conjunct1] l4 t4
  have b: "\<exists>i<4. trace (startExpressApp example_env ?opts) ! i = Use SetRequestContext"
    by blast
  from th[THEN conjunct2, THEN conjunct2, THEN conjunct2] len t8
  have c: "\<exists>i<8. trace (startExpressApp example_env ?opts) ! i = Use SessionLoaderInterceptor"
    by blast
  from out a len t4 b t8 c show ?thesis by (intro conjI)
qed

section \<open>The extension hooks\<close>









section \<open>The port\<close>

lemma morgan_construct_env_PORT: "morgan_construct (e\<lparr>env_PORT := v\<rparr>) l = morgan_construct e l"
  by (cases l) simp_all

lemma bootstrap_steps_env_PORT: "bootstrap_steps (e\<lparr>env_PORT := v\<rparr>) p h = bootstrap_steps e p h"
  by (simp add: bootstrap_steps_def middleware_steps_def launch_steps_def listen_steps_def
        morgan_construct_env_PORT)









lemma example_trace:
  assumes "beforeRoutingControllerLaunchHook (supplied_http opts) = None"
    and "afterRoutingControllerLaunchHook (supplied_http opts) = None"
    and "logLevel (supplied_http opts) \<noteq> LogLevelBoolean True"
  shows "trace (startExpressApp (example_env\<lparr>env_PORT := v\<rparr>) opts) =
           map fst (bootstrap_steps example_env (path opts)
                      (defaulted_http (example_env\<lparr>env_PORT := v\<rparr>) opts))"
proof -
  let ?e = "example_env\<lparr>env_PORT := v\<rparr>"
  have scan: "createNestAppModule
      (importClassesFromDirectories ?e [path opts @ ''/**/*.controller.*s''])
      = Inr \<lparr>controllers = [Controller ''UsersController'' ''users.controller.ts'',
                            Controller ''ValidateController'' ''json2.controller.ts''],
             module_imports = [RootModule]\<rparr>"
    by (simp add: example_env_def createNestAppModule_def uniqBy_def)
  have fields: "bindSpecificRoutes ?e = None" "NestFactory_create ?e = None"
    "nestApp_init ?e = None" "server_event ?e = Listening"
    by (simp_all add: example_env_def)
  have l: "default_logLevel (logLevel (supplied_http opts)) \<noteq> LogLevelBoolean True"
    using assms(3) by (simp add: default_logLevel_def)
  have m: "morgan_construct ?e (default_logLevel (logLevel (supplied_http opts))) = None"
    using example_morgan[OF l] by (simp add: morgan_construct_env_PORT)
  have i: "http_at_init ?e opts = defaulted_http ?e opts"
    and li: "http_at_listen ?e opts = defaulted_http ?e opts"
    using assms(1,2) by (simp_all add: no_hooks_at_init no_hooks_at_listen)
  have "run (bootstrap_steps ?e (path opts) (defaulted_http ?e opts)) =
          (map fst (bootstrap_steps ?e (path opts) (defaulted_http ?e opts)), None)"
    by (rule trace_of_success[OF scan])
      (simp_all add: defaulted_logLevel m assms i li defaulted_hooks fields)
  then show ?thesis
    unfolding trace_run by (simp add: bootstrap_steps_env_PORT)
qed



section \<open>The validation options\<close>

lemma default_http_ignores_validation:
  "default_http v (Some ((supplied_http opts)\<lparr>validation := v0\<rparr>)) = default_http v (http opts)"
  by (simp add: default_http_def supplied_http_def Let_def split: option.splits)

lemma pipe_options_in_trace:
  assumes "UseGlobalPipes v \<in> set (trace (startExpressApp e opts))"
  shows "v = validation_pipe_options (http_at_init e opts)"
proof -
  from assms have
    "UseGlobalPipes v \<in> fst ` set (bootstrap_steps e (path opts) (defaulted_http e opts))"
    using run_events unfolding trace_run by blast
  then have
    "UseGlobalPipes v \<in> set (map fst (bootstrap_steps e (path opts) (defaulted_http e opts)))"
    by simp
  then show ?thesis
    unfolding planned_events http_at_init_def by (auto split: option.splits if_splits)
qed

lemma validation_unassigned:
  assumes "beforeRoutingControllerLaunchHook (supplied_http opts) = None
           \<or> (\<exists>hk. beforeRoutingControllerLaunchHook (supplied_http opts) = Some hk
                    \<and> \<not> assigns_validation hk)"
  shows "validation_pipe_options (http_at_init e opts) =
           [(''transform'', True), (''whitelist'', True), (''forbidNonWhitelisted'', True)]"
proof -
  have "validation (http_at_init e opts) = validation (defaulted_http e opts)"
    using assms
    by (auto simp: http_at_init_def after_before_hook_def defaulted_hooks call_hook_validation)
  then show ?thesis
    by (simp add: validation_pipe_options_def defaulted_validation)
qed

text \<open>
  C10, as the code has it. Whatever validation configuration the options passed to the
  bootstrap hold, lines 79-82 overwrite the field with exactly
  \<^verbatim>\<open>{whitelist: true, forbidNonWhitelisted: true}\<close>, and the whole run is the same as with
  any other supplied value. The validation pipe is constructed from the field as it is
  after the pre-init hook, which is handed the options before the pipe is built: when no
  pre-init hook is supplied, or the hook does not assign the field, every pipe the
  bootstrap installs gets \<^verbatim>\<open>{transform: true, whitelist: true, forbidNonWhitelisted: true}\<close>.
\<close>

theorem validation_overwritten_then_hook:
  "validation (defaulted_http e opts) =
      Some [(''whitelist'', True), (''forbidNonWhitelisted'', True)]
   \<and> (\<forall>v. UseGlobalPipes v \<in> set (trace (startExpressApp e opts)) \<longrightarrow>
          v = validation_pipe_options (http_at_init e opts))
   \<and> (beforeRoutingControllerLaunchHook (supplied_http opts) = None
        \<or> (\<exists>hk. beforeRoutingControllerLaunchHook (supplied_http opts) = Some hk
                 \<and> \<not> assigns_validation hk) \<longrightarrow>
        (\<forall>v. UseGlobalPipes v \<in> set (trace (startExpressApp e opts)) \<longrightarrow>
           v = [(''transform'', True), (''whitelist'', True), (''forbidNonWhitelisted'', True)]))
   \<and> startExpressApp e (opts\<lparr>http := Some ((supplied_http opts)\<lparr>validation := v0\<rparr>)\<rparr>)
        = startExpressApp e opts"
proof (intro conjI allI impI)
  show "validation (defaulted_http e opts) =
      Some [(''whitelist'', True), (''forbidNonWhitelisted'', True)]"
    by (rule defaulted_validation)
next
  fix v assume "UseGlobalPipes v \<in> set (trace (startExpressApp e opts))"
  then show "v = validation_pipe_options (http_at_init e opts)" by (rule pipe_options_in_trace)
next
  fix v
  assume a: "beforeRoutingControllerLaunchHook (supplied_http opts) = None
        \<or> (\<exists>hk. beforeRoutingControllerLaunchHook (supplied_http opts) = Some hk
                 \<and> \<not> assigns_validation hk)"
    and v: "UseGlobalPipes v \<in> set (trace (startExpressApp e opts))"
  from pipe_options_in_trace[OF v] validation_unassigned[OF a]
  show "v = [(''transform'', True), (''whitelist'', True), (''forbidNonWhitelisted'', True)]"
    by simp
next
  show "startExpressApp e (opts\<lparr>http := Some ((supplied_http opts)\<lparr>validation := v0\<rparr>)\<rparr>)
        = startExpressApp e opts"
    by (simp add: startExpressApp_def default_http_ignores_validation)
qed

theorem validation_overwritten_then_hook_witness:
  "beforeRoutingControllerLaunchHook (supplied_http
      \<lparr>path = ''src'',
       http = Some (empty_http\<lparr>validation := Some [(''whitelist'', False), (''forbidNonWhitelisted'', False)]\<rparr>),
       enableRequestId = False\<rparr>) = None
   \<and> validation (defaulted_http example_env
      \<lparr>path = ''src'',
       http = Some (empty_http\<lparr>validation := Some [(''whitelist'', False), (''forbidNonWhitelisted'', False)]\<rparr>),
       enableRequestId = False\<rparr>)
     = Some [(''whitelist'', True), (''forbidNonWhitelisted'', True)]
   \<and> UseGlobalPipes [(''transform'', True), (''whitelist'', True), (''forbidNonWhitelisted'', True)]
       \<in> set (trace (startExpressApp example_env
      \<lparr>path = ''src'',
       http = Some (empty_http\<lparr>validation := Some [(''whitelist'', False), (''forbidNonWhitelisted'', False)]\<rparr>),
       enableRequestId = False\<rparr>))
   \<and> UseGlobalPipes [(''transform'', True), (''whitelist'', False), (''forbidNonWhitelisted'', False)]
       \<notin> set (trace (startExpressApp example_env
      \<lparr>path = ''src'',
       http = Some (empty_http\<lparr>validation := Some [(''whitelist'', False), (''forbidNonWhitelisted'', False)]\<rparr>),
       enableRequestId = False\<rparr>))"
proof -
  let ?opts = "\<lparr>path = ''src'',
       http = Some (empty_http\<lparr>validation := Some [(''whitelist'', False), (''forbidNonWhitelisted'', False)]\<rparr>),
       enableRequestId = False\<rparr>"
  have h: "beforeRoutingControllerLaunchHook (supplied_http ?opts) = None"
      "afterRoutingControllerLaunchHook (supplied_http ?opts) = None"
      "logLevel (supplied_http ?opts) \<noteq> LogLevelBoolean True"
    by (simp_all add: supplied_http_def empty_http_def)
  note th = validation_overwritten_then_hook[of example_env ?opts]
  note c1 = th[THEN conjunct1]
  from th[THEN conjunct2, THEN conjunct2, THEN conjunct1] h(1)
  have c3: "\<forall>v. UseGlobalPipes v \<in> set (trace (startExpressApp example_env ?opts)) \<longrightarrow>
           v = [(''transform'', True), (''whitelist'', True), (''forbidNonWhitelisted'', True)]"
    by blast
  have e: "example_env\<lparr>env_PORT := None\<rparr> = example_env" by (simp add: example_env_def)
  have i: "http_at_init example_env ?opts = defaulted_http example_env ?opts"
    using h by (simp add: no_hooks_at_init)
  have mem: "UseGlobalPipes [(''transform'', True), (''whitelist'', True), (''forbidNonWhitelisted'', True)]
       \<in> set (trace (startExpressApp example_env ?opts))"
    using example_trace[of ?opts None, OF h] unfolding e planned_events
    by (simp add: i[unfolded http_at_init_def] validation_pipe_options_def defaulted_validation)
  have notin: "UseGlobalPipes [(''transform'', True), (''whitelist'', False), (''forbidNonWhitelisted'', False)]
       \<notin> set (trace (startExpressApp example_env ?opts))"
  proof
    assume "UseGlobalPipes [(''transform'', True), (''whitelist'', False), (''forbidNonWhitelisted'', False)]
       \<in> set (trace (startExpressApp example_env ?opts))"
    with c3 have "[(''transform'', True), (''whitelist'', False), (''forbidNonWhitelisted'', False)]
       = [(''transform'', True), (''whitelist'', True), (''forbidNonWhitelisted'', True)]"
      by blast
    then show False by simp
  qed
  from h(1) c1 mem notin show ?thesis by (intro conjI)
qed

text \<open>
  The claim as stated fails for a caller whose pre-init hook assigns the field: the pipe
  is then constructed with whitelisting and the rejection of unknown fields switched off,
  although lines 79-82 had overwritten the field.
\<close>

theorem hook_rewrites_validation_counterexample:
  "validation (defaulted_http example_env
      \<lparr>path = ''src'',
       http = Some (empty_http\<lparr>beforeRoutingControllerLaunchHook :=
                Some (Hook [AssignValidation (Some [(''whitelist'', False), (''forbidNonWhitelisted'', False)])]
                        None)\<rparr>),
       enableRequestId = False\<rparr>)
     = Some [(''whitelist'', True), (''forbidNonWhitelisted'', True)]
   \<and> UseGlobalPipes [(''transform'', True), (''whitelist'', False), (''forbidNonWhitelisted'', False)]
       \<in> set (trace (startExpressApp example_env
      \<lparr>path = ''src'',
       http = Some (empty_http\<lparr>beforeRoutingControllerLaunchHook :=
                Some (Hook [AssignValidation (Some [(''whitelist'', False), (''forbidNonWhitelisted'', False)])]
                        None)\<rparr>),
       enableRequestId = False\<rparr>))"
proof -
  let ?hk = "Hook [AssignValidation (Some [(''whitelist'', False), (''forbidNonWhitelisted'', False)])] None"
  let ?opts = "\<lparr>path = ''src'',
       http = Some (empty_http\<lparr>beforeRoutingControllerLaunchHook := Some ?hk\<rparr>),
       enableRequestId = False\<rparr>"
  have s: "beforeRoutingControllerLaunchHook (supplied_http ?opts) = Some ?hk"
      "afterRoutingControllerLaunchHook (supplied_http ?opts) = None"
      "logLevel (supplied_http ?opts) = LogLevelUndefined"
      "preventListen (supplied_http ?opts) = False"
    by (simp_all add: supplied_http_def empty_http_def)
  have i: "http_at_init example_env ?opts =
      (defaulted_http example_env ?opts)
        \<lparr>validation := Some [(''whitelist'', False), (''forbidNonWhitelisted'', False)]\<rparr>"
    by (simp add: http_at_init_def after_before_hook_def defaulted_hooks s call_hook_def)
  have l: "http_at_listen example_env ?opts = http_at_init example_env ?opts"
    by (simp add: http_at_listen_def after_after_hook_def i defaulted_hooks s)
  have run: "run (bootstrap_steps example_env (path ?opts) (defaulted_http example_env ?opts)) =
      (map fst (bootstrap_steps example_env (path ?opts) (defaulted_http example_env ?opts)), None)"
    by (rule trace_of_success[OF example_scan])
      (simp_all add: example_env_fields s l i defaulted_hooks defaulted_logLevel default_logLevel_def)
  have "UseGlobalPipes [(''transform'', True), (''whitelist'', False), (''forbidNonWhitelisted'', False)]
       \<in> set (trace (startExpressApp example_env ?opts))"
    unfolding trace_run run fst_conv planned_events
    by (simp add: i[unfolded http_at_init_def] validation_pipe_options_def)
  with defaulted_validation[of example_env ?opts] show ?thesis by (intro conjI)
qed

end
